theory Spec2Isabelle
  imports Complex_Main "HOL-Library.Word"
begin

unbundle bit_operations_syntax

section \<open>JavaScript data\<close>

text \<open>
  A JavaScript string is a sequence of 16-bit code units; a byte buffer (\<open>ArrayBuffer\<close>,
  \<open>Uint8Array\<close>, Node's \<open>Buffer\<close>) is a sequence of bytes. \<open>js\<close> writes a string literal
  of ASCII characters as code units.
\<close>

type_synonym byte = "8 word"
type_synonym code_unit = "16 word"
type_synonym jsstring = "code_unit list"

definition js :: "string \<Rightarrow> jsstring" where
  "js s = map of_char s"

text \<open>
  The exceptions the modelled code can raise; \<open>Error\<close> and \<open>RangeError\<close> carry their
  message.
\<close>

datatype exception =
    InvalidCharacterError
  | RangeError jsstring
  | IndexSizeError
  | SyntaxError
  | TypeError
  | Error jsstring

section \<open>JavaScript numbers\<close>

text \<open>
  A JavaScript number is an IEEE 754 double: not-a-number, an infinity, or a finite value.
  \<open>Finite r\<close> is the double whose value is the rational \<open>r\<close>; the two zeros are one value
  here, since nothing modelled below tells them apart (no division by a zero, no
  \<open>Object.is\<close>). Arithmetic computes the exact rational result and rounds it to the
  nearest double, ties to even: \<open>round_binary p qmin emax\<close> rounds to \<open>p\<close> significant bits
  with least exponent \<open>qmin\<close> for the last bit and overflows to an infinity above exponent
  \<open>emax\<close>. \<open>float64\<close> is the rounding of every arithmetic operation, \<open>float32\<close> the
  rounding of a store into a \<open>Float32Array\<close>.
\<close>

datatype number = NaN | NegInfinity | PosInfinity | Finite rat

fun bit_length :: "nat \<Rightarrow> nat" where
  "bit_length n = (if n = 0 then 0 else Suc (bit_length (n div 2)))"

declare bit_length.simps [simp del]

text \<open>\<open>floor_log2 r\<close> is the exponent \<open>e\<close> with \<open>2 powi e \<le> r < 2 powi (e + 1)\<close>, for \<open>0 < r\<close>.\<close>

definition floor_log2 :: "rat \<Rightarrow> int" where
  "floor_log2 r =
     (let (a, b) = quotient_of r;
          d = int (bit_length (nat a)) - int (bit_length (nat b))
      in if 2 powi d \<le> r then d else d - 1)"

definition round_half_even :: "rat \<Rightarrow> int" where
  "round_half_even x =
     (let f = \<lfloor>x\<rfloor>; d = x - of_int f
      in if d < 1 / 2 then f else if 1 / 2 < d then f + 1 else if even f then f else f + 1)"

definition round_binary :: "nat \<Rightarrow> int \<Rightarrow> int \<Rightarrow> rat \<Rightarrow> number" where
  "round_binary p qmin emax r =
     (if r = 0 then Finite 0
      else let a = \<bar>r\<bar>;
               q = max (floor_log2 a - (int p - 1)) qmin;
               y = of_int (round_half_even (a / 2 powi q)) * 2 powi q
           in if emax < floor_log2 y then (if r < 0 then NegInfinity else PosInfinity)
              else Finite (if r < 0 then - y else y))"

definition float64 :: "rat \<Rightarrow> number" where
  "float64 = round_binary 53 (- 1074) 1023"

definition float32 :: "rat \<Rightarrow> number" where
  "float32 = round_binary 24 (- 149) 127"

text \<open>The operators \<open>+\<close>, \<open>*\<close> and \<open><\<close> on numbers, and \<open>/\<close> by a nonzero finite constant.\<close>

fun js_add :: "number \<Rightarrow> number \<Rightarrow> number" where
  "js_add NaN y = NaN"
| "js_add x NaN = NaN"
| "js_add (Finite a) (Finite b) = float64 (a + b)"
| "js_add PosInfinity NegInfinity = NaN"
| "js_add NegInfinity PosInfinity = NaN"
| "js_add (Finite a) y = y"
| "js_add x y = x"

fun js_mul :: "number \<Rightarrow> number \<Rightarrow> number" where
  "js_mul NaN y = NaN"
| "js_mul x NaN = NaN"
| "js_mul (Finite a) (Finite b) = float64 (a * b)"
| "js_mul (Finite a) y =
     (if a = 0 then NaN else if (a < 0) \<noteq> (y = NegInfinity) then NegInfinity else PosInfinity)"
| "js_mul x (Finite b) =
     (if b = 0 then NaN else if (b < 0) \<noteq> (x = NegInfinity) then NegInfinity else PosInfinity)"
| "js_mul x y = (if (x = NegInfinity) \<noteq> (y = NegInfinity) then NegInfinity else PosInfinity)"

definition js_div :: "number \<Rightarrow> rat \<Rightarrow> number" where
  "js_div x c =
     (case x of
        NaN \<Rightarrow> NaN
      | Finite a \<Rightarrow> float64 (a / c)
      | PosInfinity \<Rightarrow> (if c < 0 then NegInfinity else PosInfinity)
      | NegInfinity \<Rightarrow> (if c < 0 then PosInfinity else NegInfinity))"

fun js_less :: "number \<Rightarrow> number \<Rightarrow> bool" where
  "js_less NaN y = False"
| "js_less x NaN = False"
| "js_less (Finite a) (Finite b) = (a < b)"
| "js_less PosInfinity y = False"
| "js_less x NegInfinity = False"
| "js_less x y = True"

definition Math_min :: "number \<Rightarrow> number \<Rightarrow> number" where
  "Math_min x y = (if x = NaN \<or> y = NaN then NaN else if js_less y x then y else x)"

definition Math_max :: "number \<Rightarrow> number \<Rightarrow> number" where
  "Math_max x y = (if x = NaN \<or> y = NaN then NaN else if js_less x y then y else x)"

text \<open>A store into a \<open>Float32Array\<close> rounds the number to single precision.\<close>

definition fround :: "number \<Rightarrow> number" where
  "fround x = (case x of Finite a \<Rightarrow> float32 a | _ \<Rightarrow> x)"

text \<open>
  \<open>ToInt16\<close>, the conversion of \<open>DataView.setInt16\<close>: not-a-number and the infinities give
  0; a finite number is truncated towards zero and reduced modulo \<open>2 ^ 16\<close>.
\<close>

definition js_truncate :: "rat \<Rightarrow> int" where
  "js_truncate r = (if r < 0 then \<lceil>r\<rceil> else \<lfloor>r\<rfloor>)"

definition ToInt16 :: "number \<Rightarrow> 16 word" where
  "ToInt16 x = (case x of Finite r \<Rightarrow> word_of_int (js_truncate r) | _ \<Rightarrow> 0)"

section \<open>Numbers as text\<close>

text \<open>
  \<open>ch\<close> is the code unit of an ASCII character. \<open>decimal_digits n\<close> writes a natural
  number in decimal; \<open>digits_value\<close> reads a string of decimal digits.
\<close>

definition ch :: "char \<Rightarrow> code_unit" where
  "ch c = of_char c"

definition is_digit :: "code_unit \<Rightarrow> bool" where
  "is_digit c \<longleftrightarrow> 48 \<le> c \<and> c \<le> 57"

definition digit_char :: "nat \<Rightarrow> code_unit" where
  "digit_char d = of_nat (48 + d)"

fun decimal_digits_acc :: "nat \<Rightarrow> jsstring \<Rightarrow> jsstring" where
  "decimal_digits_acc n acc =
     (if n < 10 then digit_char n # acc
      else decimal_digits_acc (n div 10) (digit_char (n mod 10) # acc))"

declare decimal_digits_acc.simps [simp del]

definition decimal_digits :: "nat \<Rightarrow> jsstring" where
  "decimal_digits n = decimal_digits_acc n []"

definition digits_value :: "jsstring \<Rightarrow> nat" where
  "digits_value ds = foldl (\<lambda>n d. 10 * n + (unat d - 48)) 0 ds"

text \<open>
  \<open>Number::toString\<close> (ECMA-262, 6.1.6.1.20) writes a finite nonzero number \<open>x\<close> with the
  least number \<open>k\<close> of significant digits \<open>s\<close> such that \<open>s * 10 ^ (n - k)\<close> still
  rounds to \<open>x\<close>, choosing the closest such value. \<open>decimal_exponent r\<close> is the \<open>n\<close> with
  \<open>10 ^ (n - 1) \<le> r < 10 ^ n\<close>; \<open>shortest_digits r\<close> is \<open>(s, n)\<close>.
\<close>

definition decimal_exponent :: "rat \<Rightarrow> int" where
  "decimal_exponent r =
     (let est = (floor_log2 r * 1233) div 4096
      in case find (\<lambda>n. 10 powi (n - 1) \<le> r \<and> r < 10 powi n) [est, est + 1, est + 2, est + 3] of
           Some n \<Rightarrow> n
         | None \<Rightarrow> est + 1)"

definition digits_candidate :: "rat \<Rightarrow> int \<Rightarrow> nat \<Rightarrow> int option" where
  "digits_candidate r n k =
     (let scale = 10 powi (n - int k);
          lo = \<lfloor>r / scale\<rfloor>;
          hi = lo + 1;
          lo_ok = (float64 (of_int lo * scale) = Finite r);
          hi_ok = (float64 (of_int hi * scale) = Finite r);
          dlo = r - of_int lo * scale;
          dhi = of_int hi * scale - r
      in if lo_ok \<and> hi_ok
         then Some (if dlo < dhi then lo else if dhi < dlo then hi else if even lo then lo else hi)
         else if lo_ok then Some lo
         else if hi_ok then Some hi
         else None)"

definition shortest_digits :: "rat \<Rightarrow> jsstring \<times> int" where
  "shortest_digits r =
     (let n = decimal_exponent r
      in case List.map_filter (\<lambda>k. map_option (\<lambda>s. (s, k)) (digits_candidate r n k)) [1..<18] of
           (s, k) # _ \<Rightarrow>
             (if s = 10 ^ k then ([digit_char 1], n + 1) else (decimal_digits (nat s), n))
         | [] \<Rightarrow> (decimal_digits (nat (round_half_even (r / 10 powi (n - 17)))), n))"

definition format_decimal :: "jsstring \<Rightarrow> int \<Rightarrow> jsstring" where
  "format_decimal ds n =
     (let k = int (length ds)
      in if k \<le> n \<and> n \<le> 21 then ds @ replicate (nat (n - k)) (digit_char 0)
         else if 0 < n \<and> n \<le> 21 then take (nat n) ds @ [ch CHR ''.''] @ drop (nat n) ds
         else if - 6 < n \<and> n \<le> 0
           then [digit_char 0, ch CHR ''.''] @ replicate (nat (- n)) (digit_char 0) @ ds
         else (let e = n - 1;
                   exponent = [ch CHR ''e'', if e < 0 then ch CHR ''-'' else ch CHR ''+'']
                              @ decimal_digits (nat \<bar>e\<bar>)
               in if k = 1 then ds @ exponent
                  else take 1 ds @ [ch CHR ''.''] @ drop 1 ds @ exponent))"

definition Number_toString :: "number \<Rightarrow> jsstring" where
  "Number_toString x =
     (case x of
        NaN \<Rightarrow> js ''NaN''
      | PosInfinity \<Rightarrow> js ''Infinity''
      | NegInfinity \<Rightarrow> js ''-Infinity''
      | Finite r \<Rightarrow>
          (if r = 0 then js ''0''
           else let (ds, n) = shortest_digits \<bar>r\<bar>
                in (if r < 0 then [ch CHR ''-''] else []) @ format_decimal ds n))"

text \<open>
  A JSON number literal: an optional minus sign, an integer part without a leading zero,
  an optional fraction and an optional exponent. Its value is the exact decimal value
  rounded to a double (\<open>StringToNumber\<close>).
\<close>

definition number_literal :: "jsstring \<Rightarrow> number option" where
  "number_literal lit =
     (let negative = (lit \<noteq> [] \<and> hd lit = ch CHR ''-'');
          cs1 = (if negative then tl lit else lit);
          int_part = takeWhile is_digit cs1;
          cs2 = dropWhile is_digit cs1;
          has_frac = (cs2 \<noteq> [] \<and> hd cs2 = ch CHR ''.'');
          frac_part = (if has_frac then takeWhile is_digit (tl cs2) else []);
          cs3 = (if has_frac then dropWhile is_digit (tl cs2) else cs2);
          has_exp = (cs3 \<noteq> [] \<and> (hd cs3 = ch CHR ''e'' \<or> hd cs3 = ch CHR ''E''));
          cs4 = (if has_exp then tl cs3 else cs3);
          exp_negative = (has_exp \<and> cs4 \<noteq> [] \<and> hd cs4 = ch CHR ''-'');
          cs5 = (if has_exp \<and> cs4 \<noteq> [] \<and> (hd cs4 = ch CHR ''-'' \<or> hd cs4 = ch CHR ''+'')
                 then tl cs4 else cs4);
          exp_part = (if has_exp then takeWhile is_digit cs5 else []);
          cs6 = (if has_exp then dropWhile is_digit cs5 else cs5)
      in if int_part = [] \<or> (1 < length int_part \<and> hd int_part = digit_char 0)
            \<or> (has_frac \<and> frac_part = []) \<or> (has_exp \<and> exp_part = []) \<or> cs6 \<noteq> []
         then None
         else let mantissa = int (digits_value (int_part @ frac_part));
                  e = (if exp_negative then - int (digits_value exp_part)
                       else int (digits_value exp_part)) - int (length frac_part);
                  v = of_int mantissa * 10 powi e
              in Some (float64 (if negative then - v else v)))"

section \<open>The audio pipeline (App.js, lines 348-413)\<close>

text \<open>
  \<open>averageChannels\<close>: a fresh \<open>Float32Array\<close> of the shorter length, filled by the loop
  \<open>result[i] = (channel1[i] + channel2[i]) / 2\<close>.
\<close>

function averageChannels_loop ::
  "number list \<Rightarrow> number list \<Rightarrow> nat \<Rightarrow> nat \<Rightarrow> number list \<Rightarrow> number list" where
  "averageChannels_loop channel1 channel2 len i result =
     (if i < len
      then averageChannels_loop channel1 channel2 len (i + 1)
             (result[i := fround (js_div (js_add (channel1 ! i) (channel2 ! i)) 2)])
      else result)"
  by pat_completeness auto
termination
  by (relation "measure (\<lambda>(channel1, channel2, len, i, result). len - i)") auto

declare averageChannels_loop.simps [simp del]

definition averageChannels :: "number list \<Rightarrow> number list \<Rightarrow> number list" where
  "averageChannels channel1 channel2 =
     (let len = min (length channel1) (length channel2)
      in averageChannels_loop channel1 channel2 len 0 (replicate len (Finite 0)))"

text \<open>
  A decoded \<open>AudioBuffer\<close> is the list of its channels, each a \<open>Float32Array\<close>;
  \<open>numberOfChannels\<close> is the length of the list and \<open>getChannelData\<close> throws on an index
  that is not a channel. \<open>downmix\<close> is the conditional expression of
  \<open>convertBlobToPCM16Mono24kHz\<close> (lines 360-366).
\<close>

type_synonym audio_buffer = "number list list"

definition getChannelData :: "audio_buffer \<Rightarrow> nat \<Rightarrow> exception + number list" where
  "getChannelData audioBuffer k =
     (if k < length audioBuffer then Inr (audioBuffer ! k) else Inl IndexSizeError)"

definition downmix :: "audio_buffer \<Rightarrow> exception + number list" where
  "downmix audioBuffer =
     (if 1 < length audioBuffer
      then (case getChannelData audioBuffer 0 of
              Inl e \<Rightarrow> Inl e
            | Inr channel1 \<Rightarrow>
                (case getChannelData audioBuffer 1 of
                   Inl e \<Rightarrow> Inl e
                 | Inr channel2 \<Rightarrow> Inr (averageChannels channel1 channel2)))
      else getChannelData audioBuffer 0)"

text \<open>
  \<open>DataView.setInt16(byteOffset, value, littleEndian)\<close> throws a \<open>RangeError\<close> when the two
  bytes do not fit the buffer and otherwise writes the 16-bit value, low byte first when
  \<open>littleEndian\<close> is true.
\<close>

definition setInt16 :: "byte list \<Rightarrow> nat \<Rightarrow> number \<Rightarrow> bool \<Rightarrow> exception + byte list" where
  "setInt16 view byteOffset v littleEndian =
     (if length view < byteOffset + 2
      then Inl (RangeError (js ''Offset is outside the bounds of the DataView''))
      else let w = ToInt16 v; lo = ucast w; hi = ucast (drop_bit 8 w)
           in Inr (if littleEndian then view[byteOffset := lo, byteOffset + 1 := hi]
                   else view[byteOffset := hi, byteOffset + 1 := lo]))"

text \<open>
  \<open>float32ToPCM16\<close>: a zero-filled buffer of \<open>float32Array.length * 2\<close> bytes, then for each
  index the sample is clamped by \<open>Math.max(-1, Math.min(1, x))\<close>, scaled by \<open>0x8000\<close> when
  negative and by \<open>0x7fff\<close> otherwise, and written with \<open>setInt16(i * 2, s, true)\<close>.
\<close>

function float32ToPCM16_loop :: "number list \<Rightarrow> nat \<Rightarrow> byte list \<Rightarrow> exception + byte list" where
  "float32ToPCM16_loop float32Array i view =
     (if i < length float32Array
      then (let s = Math_max (Finite (- 1)) (Math_min (Finite 1) (float32Array ! i));
                s' = (if js_less s (Finite 0) then js_mul s (Finite 32768) else js_mul s (Finite 32767))
            in case setInt16 view (i * 2) s' True of
                 Inl e \<Rightarrow> Inl e
               | Inr view' \<Rightarrow> float32ToPCM16_loop float32Array (i + 1) view')
      else Inr view)"
  by pat_completeness auto
termination
  by (relation "measure (\<lambda>(float32Array, i, view). length float32Array - i)") auto

declare float32ToPCM16_loop.simps [simp del]

definition float32ToPCM16 :: "number list \<Rightarrow> exception + byte list" where
  "float32ToPCM16 float32Array =
     float32ToPCM16_loop float32Array 0 (replicate (length float32Array * 2) 0)"

section \<open>Base64: \<open>btoa\<close>, \<open>atob\<close> and \<open>arrayBufferToBase64\<close> (App.js, lines 420-428)\<close>

text \<open>
  \<open>btoa\<close> and \<open>atob\<close> are the browser's functions. \<open>btoa\<close> throws on a code unit above
  255 and otherwise encodes the string's code units, taken as bytes, as RFC 4648 base64 with
  padding: each group of three bytes is one 24-bit number, written as four 6-bit digits.
  \<open>atob\<close> is the forgiving decoder of the Infra standard: it drops ASCII whitespace, removes
  one or two trailing pad characters when the length is a multiple of four, rejects a
  length of 1 modulo 4 and any character outside the alphabet, and then collects 6 bits per
  character, emitting three bytes for every 24 bits.
\<close>

definition base64_alphabet :: jsstring where
  "base64_alphabet = js ''ABCDEFGHIJKLMNOPQRSTUVWXYZabcdefghijklmnopqrstuvwxyz0123456789+/''"

definition base64_pad :: code_unit where
  "base64_pad = 61"

definition base64_char :: "nat \<Rightarrow> code_unit" where
  "base64_char n = base64_alphabet ! (n mod 64)"

fun base64_encode :: "byte list \<Rightarrow> jsstring" where
  "base64_encode [] = []"
| "base64_encode [a] =
     (let n = unat a * 16
      in [base64_char (n div 64), base64_char n, base64_pad, base64_pad])"
| "base64_encode [a, b] =
     (let n = (unat a * 256 + unat b) * 4
      in [base64_char (n div 4096), base64_char (n div 64), base64_char n, base64_pad])"
| "base64_encode (a # b # c # rest) =
     (let n = (unat a * 256 + unat b) * 256 + unat c
      in [base64_char (n div 262144), base64_char (n div 4096), base64_char (n div 64),
          base64_char n] @ base64_encode rest)"

fun index_of :: "'a \<Rightarrow> 'a list \<Rightarrow> nat option" where
  "index_of x [] = None"
| "index_of x (y # ys) = (if x = y then Some 0 else map_option Suc (index_of x ys))"

definition btoa :: "jsstring \<Rightarrow> exception + jsstring" where
  "btoa data =
     (if \<exists>c \<in> set data. 255 < c then Inl InvalidCharacterError
      else Inr (base64_encode (map ucast data)))"

definition ascii_whitespace :: "code_unit \<Rightarrow> bool" where
  "ascii_whitespace c \<longleftrightarrow> c = 9 \<or> c = 10 \<or> c = 12 \<or> c = 13 \<or> c = 32"

definition remove_padding :: "jsstring \<Rightarrow> jsstring" where
  "remove_padding d =
     (if length d mod 4 = 0 \<and> d \<noteq> [] \<and> last d = base64_pad
      then (let d1 = butlast d
            in if d1 \<noteq> [] \<and> last d1 = base64_pad then butlast d1 else d1)
      else d)"

fun base64_loop :: "nat list \<Rightarrow> nat \<Rightarrow> nat \<Rightarrow> jsstring \<Rightarrow> jsstring" where
  "base64_loop [] buf bits out =
     (if bits = 12 then out @ [of_nat (buf div 16)]
      else if bits = 18 then out @ [of_nat (buf div 4 div 256), of_nat (buf div 4 mod 256)]
      else out)"
| "base64_loop (v # vs) buf bits out =
     (let buf' = buf * 64 + v; bits' = bits + 6
      in if bits' = 24
         then base64_loop vs 0 0
                (out @ [of_nat (buf' div 65536), of_nat (buf' div 256 mod 256), of_nat (buf' mod 256)])
         else base64_loop vs buf' bits' out)"

definition atob :: "jsstring \<Rightarrow> exception + jsstring" where
  "atob data =
     (let d = remove_padding (filter (\<lambda>c. \<not> ascii_whitespace c) data)
      in if length d mod 4 = 1 then Inl InvalidCharacterError
         else if \<exists>c \<in> set d. index_of c base64_alphabet = None then Inl InvalidCharacterError
         else Inr (base64_loop (map (\<lambda>c. the (index_of c base64_alphabet)) d) 0 0 []))"

text \<open>
  \<open>arrayBufferToBase64\<close>: the \<open>for\<close> loop appends \<open>String.fromCharCode(bytes[i])\<close> to
  \<open>binary\<close> for \<open>i\<close> from 0 to \<open>len - 1\<close>; the result goes to \<open>btoa\<close>.
\<close>

function binary_loop :: "byte list \<Rightarrow> nat \<Rightarrow> jsstring \<Rightarrow> jsstring" where
  "binary_loop bytes i binary =
     (if i < length bytes then binary_loop bytes (i + 1) (binary @ [ucast (bytes ! i)])
      else binary)"
  by pat_completeness auto
termination
  by (relation "measure (\<lambda>(bytes, i, binary). length bytes - i)") auto

declare binary_loop.simps [simp del]

definition arrayBufferToBase64 :: "byte list \<Rightarrow> exception + jsstring" where
  "arrayBufferToBase64 buffer = btoa (binary_loop buffer 0 [])"

text \<open>
  \<open>convertBlobToPCM16Mono24kHz\<close> (lines 348-382): the argument is what creating the audio
  context and decoding the recording gave, a decoded buffer or the exception thrown;
  every exception ends in the \<open>catch\<close> block, which returns \<open>null\<close>.
\<close>

definition convertBlobToPCM16Mono24kHz :: "exception + audio_buffer \<Rightarrow> jsstring option" where
  "convertBlobToPCM16Mono24kHz decoded =
     (case decoded of
        Inl e \<Rightarrow> None
      | Inr audioBuffer \<Rightarrow>
          (case downmix audioBuffer of
             Inl e \<Rightarrow> None
           | Inr channelData \<Rightarrow>
               (case float32ToPCM16 channelData of
                  Inl e \<Rightarrow> None
                | Inr pcm16Buffer \<Rightarrow>
                    (case arrayBufferToBase64 pcm16Buffer of
                       Inl e \<Rightarrow> None
                     | Inr base64Audio \<Rightarrow> Some base64Audio))))"

section \<open>JSON values, \<open>JSON.parse\<close> and \<open>JSON.stringify\<close>\<close>

text \<open>
  A value that \<open>JSON.parse\<close> returns. An object is the list of its own properties in
  the order JavaScript enumerates them: keys that are array indices first, ascending,
  then the other keys in the order of their creation.
\<close>

datatype json =
    JNull
  | JBool bool
  | JNumber number
  | JString jsstring
  | JArray "json list"
  | JObject "(jsstring \<times> json) list"

text \<open>Reading a property of a value: an object's own property, and nothing otherwise.\<close>

definition get_property :: "json \<Rightarrow> jsstring \<Rightarrow> json option" where
  "get_property v k = (case v of JObject ps \<Rightarrow> map_of ps k | _ \<Rightarrow> None)"

text \<open>
  \<open>array_index k\<close> is the index a key stands for, when the key is the canonical decimal
  form of a number below \<open>2 ^ 32 - 1\<close>. \<open>define_property\<close> overwrites the value of a key
  that exists, keeping its place, and appends a new key; \<open>own_properties\<close> puts a list of
  properties in enumeration order.
\<close>

definition array_index :: "jsstring \<Rightarrow> nat option" where
  "array_index k =
     (if k \<noteq> [] \<and> list_all is_digit k \<and> (k = [digit_char 0] \<or> hd k \<noteq> digit_char 0)
         \<and> length k \<le> 10 \<and> digits_value k < 4294967295
      then Some (digits_value k) else None)"

fun define_property :: "(jsstring \<times> json) list \<Rightarrow> jsstring \<Rightarrow> json \<Rightarrow> (jsstring \<times> json) list" where
  "define_property [] k v = [(k, v)]"
| "define_property (p # ps) k v = (if fst p = k then (k, v) # ps else p # define_property ps k v)"

definition own_properties :: "(jsstring \<times> json) list \<Rightarrow> (jsstring \<times> json) list" where
  "own_properties ps =
     sort_key (\<lambda>p. case array_index (fst p) of Some i \<Rightarrow> i | None \<Rightarrow> 0)
       (filter (\<lambda>p. array_index (fst p) \<noteq> None) ps)
     @ filter (\<lambda>p. array_index (fst p) = None) ps"

subsection \<open>Tokens\<close>

text \<open>
  The lexer reads the text one code unit at a time. White space is tab, line feed,
  carriage return and space. A string may hold any code unit but the quote, the backslash
  and the controls below \<open>0x20\<close>, and the escapes of ECMA-404. The characters of a
  number or of a literal name are collected up to the next character that cannot belong
  to one, and the collected text must then be a number literal or one of \<open>true\<close>, \<open>false\<close>
  and \<open>null\<close>.
\<close>

datatype token =
    LBRACE | RBRACE | LBRACKET | RBRACKET | COLON | COMMA
  | TSTRING jsstring | TNUMBER number | TTRUE | TFALSE | TNULL

datatype lex_state =
    LStart
  | LString jsstring
  | LEscape jsstring
  | LUnicode jsstring "nat list"
  | LNumber jsstring
  | LName jsstring

definition is_whitespace :: "code_unit \<Rightarrow> bool" where
  "is_whitespace c \<longleftrightarrow> c = 9 \<or> c = 10 \<or> c = 13 \<or> c = 32"

definition is_number_char :: "code_unit \<Rightarrow> bool" where
  "is_number_char c \<longleftrightarrow>
     is_digit c \<or> c = ch CHR ''-'' \<or> c = ch CHR ''+'' \<or> c = ch CHR ''.''
       \<or> c = ch CHR ''e'' \<or> c = ch CHR ''E''"

definition is_name_char :: "code_unit \<Rightarrow> bool" where
  "is_name_char c \<longleftrightarrow> 97 \<le> c \<and> c \<le> 122"

definition hex_value :: "code_unit \<Rightarrow> nat option" where
  "hex_value c =
     (if 48 \<le> c \<and> c \<le> 57 then Some (unat c - 48)
      else if 97 \<le> c \<and> c \<le> 102 then Some (unat c - 87)
      else if 65 \<le> c \<and> c \<le> 70 then Some (unat c - 55)
      else None)"

definition escape_value :: "code_unit \<Rightarrow> code_unit option" where
  "escape_value c =
     (if c = 0x22 then Some 0x22
      else if c = 0x5C then Some 0x5C
      else if c = ch CHR ''/'' then Some (ch CHR ''/'')
      else if c = ch CHR ''b'' then Some 8
      else if c = ch CHR ''f'' then Some 12
      else if c = ch CHR ''n'' then Some 10
      else if c = ch CHR ''r'' then Some 13
      else if c = ch CHR ''t'' then Some 9
      else None)"

definition name_token :: "jsstring \<Rightarrow> token option" where
  "name_token name =
     (if name = js ''true'' then Some TTRUE
      else if name = js ''false'' then Some TFALSE
      else if name = js ''null'' then Some TNULL
      else None)"

definition lex_start :: "code_unit \<Rightarrow> (token list \<times> lex_state) option" where
  "lex_start c =
     (if is_whitespace c then Some ([], LStart)
      else if c = ch CHR ''{'' then Some ([LBRACE], LStart)
      else if c = ch CHR ''}'' then Some ([RBRACE], LStart)
      else if c = ch CHR ''['' then Some ([LBRACKET], LStart)
      else if c = ch CHR '']'' then Some ([RBRACKET], LStart)
      else if c = ch CHR '':'' then Some ([COLON], LStart)
      else if c = ch CHR '','' then Some ([COMMA], LStart)
      else if c = 0x22 then Some ([], LString [])
      else if c = ch CHR ''-'' \<or> is_digit c then Some ([], LNumber [c])
      else if is_name_char c then Some ([], LName [c])
      else None)"

definition lex_step :: "lex_state \<Rightarrow> code_unit \<Rightarrow> (token list \<times> lex_state) option" where
  "lex_step st c =
     (case st of
        LStart \<Rightarrow> lex_start c
      | LString acc \<Rightarrow>
          (if c = 0x22 then Some ([TSTRING (rev acc)], LStart)
           else if c = 0x5C then Some ([], LEscape acc)
           else if c < 0x20 then None
           else Some ([], LString (c # acc)))
      | LEscape acc \<Rightarrow>
          (if c = ch CHR ''u'' then Some ([], LUnicode acc [])
           else (case escape_value c of
                   None \<Rightarrow> None
                 | Some x \<Rightarrow> Some ([], LString (x # acc))))
      | LUnicode acc hs \<Rightarrow>
          (case hex_value c of
             None \<Rightarrow> None
           | Some h \<Rightarrow>
               (if length hs = 3
                then Some ([], LString (of_nat (foldl (\<lambda>n d. 16 * n + d) 0 (hs @ [h])) # acc))
                else Some ([], LUnicode acc (hs @ [h]))))
      | LNumber lit \<Rightarrow>
          (if is_number_char c then Some ([], LNumber (lit @ [c]))
           else (case number_literal lit of
                   None \<Rightarrow> None
                 | Some n \<Rightarrow>
                     (case lex_start c of
                        None \<Rightarrow> None
                      | Some (ts, st') \<Rightarrow> Some (TNUMBER n # ts, st'))))
      | LName name \<Rightarrow>
          (if is_name_char c then Some ([], LName (name @ [c]))
           else (case name_token name of
                   None \<Rightarrow> None
                 | Some t \<Rightarrow>
                     (case lex_start c of
                        None \<Rightarrow> None
                      | Some (ts, st') \<Rightarrow> Some (t # ts, st')))))"

definition lex_end :: "lex_state \<Rightarrow> token list option" where
  "lex_end st =
     (case st of
        LStart \<Rightarrow> Some []
      | LNumber lit \<Rightarrow> map_option (\<lambda>n. [TNUMBER n]) (number_literal lit)
      | LName name \<Rightarrow> map_option (\<lambda>t. [t]) (name_token name)
      | _ \<Rightarrow> None)"

fun lex_all :: "lex_state \<Rightarrow> jsstring \<Rightarrow> token list option" where
  "lex_all st [] = lex_end st"
| "lex_all st (c # cs) =
     (case lex_step st c of
        None \<Rightarrow> None
      | Some (ts, st') \<Rightarrow> map_option (\<lambda>rest. ts @ rest) (lex_all st' cs))"

subsection \<open>The grammar\<close>

text \<open>
  The parser keeps the stack of the arrays and objects that are open. An array frame holds
  the elements read so far, last first; an object frame holds the properties defined so
  far and the key that waits for its value. A repeated key overwrites the earlier value.
\<close>

datatype frame =
    ArrayFrame "json list"
  | ObjectFrame "(jsstring \<times> json) list" "jsstring option"

datatype parse_mode =
    ExpectValue
  | ExpectValueOrEnd
  | ExpectKeyOrEnd
  | ExpectKey
  | ExpectColon
  | AfterValue
  | Done json

definition put_value :: "json \<Rightarrow> frame list \<Rightarrow> (frame list \<times> parse_mode) option" where
  "put_value v stack =
     (case stack of
        [] \<Rightarrow> Some ([], Done v)
      | ArrayFrame es # st \<Rightarrow> Some (ArrayFrame (v # es) # st, AfterValue)
      | ObjectFrame ps (Some k) # st \<Rightarrow> Some (ObjectFrame (define_property ps k v) None # st, AfterValue)
      | ObjectFrame ps None # st \<Rightarrow> None)"

definition close_array :: "frame list \<Rightarrow> (frame list \<times> parse_mode) option" where
  "close_array stack =
     (case stack of
        ArrayFrame es # st \<Rightarrow> put_value (JArray (rev es)) st
      | _ \<Rightarrow> None)"

definition close_object :: "frame list \<Rightarrow> (frame list \<times> parse_mode) option" where
  "close_object stack =
     (case stack of
        ObjectFrame ps None # st \<Rightarrow> put_value (JObject (own_properties ps)) st
      | _ \<Rightarrow> None)"

definition parse_value_token :: "token \<Rightarrow> frame list \<Rightarrow> (frame list \<times> parse_mode) option" where
  "parse_value_token t stack =
     (case t of
        TSTRING s \<Rightarrow> put_value (JString s) stack
      | TNUMBER n \<Rightarrow> put_value (JNumber n) stack
      | TTRUE \<Rightarrow> put_value (JBool True) stack
      | TFALSE \<Rightarrow> put_value (JBool False) stack
      | TNULL \<Rightarrow> put_value JNull stack
      | LBRACKET \<Rightarrow> Some (ArrayFrame [] # stack, ExpectValueOrEnd)
      | LBRACE \<Rightarrow> Some (ObjectFrame [] None # stack, ExpectKeyOrEnd)
      | _ \<Rightarrow> None)"

definition parse_key_token :: "token \<Rightarrow> frame list \<Rightarrow> (frame list \<times> parse_mode) option" where
  "parse_key_token t stack =
     (case (t, stack) of
        (TSTRING k, ObjectFrame ps None # st) \<Rightarrow> Some (ObjectFrame ps (Some k) # st, ExpectColon)
      | _ \<Rightarrow> None)"

definition parse_step :: "frame list \<times> parse_mode \<Rightarrow> token \<Rightarrow> (frame list \<times> parse_mode) option" where
  "parse_step s t =
     (case s of (stack, mode) \<Rightarrow>
        (case mode of
           ExpectValue \<Rightarrow> parse_value_token t stack
         | ExpectValueOrEnd \<Rightarrow> (if t = RBRACKET then close_array stack else parse_value_token t stack)
         | ExpectKeyOrEnd \<Rightarrow> (if t = RBRACE then close_object stack else parse_key_token t stack)
         | ExpectKey \<Rightarrow> parse_key_token t stack
         | ExpectColon \<Rightarrow> (if t = COLON then Some (stack, ExpectValue) else None)
         | AfterValue \<Rightarrow>
             (if t = COMMA
              then (case stack of
                      ArrayFrame es # st \<Rightarrow> Some (stack, ExpectValue)
                    | ObjectFrame ps k # st \<Rightarrow> Some (stack, ExpectKey)
                    | [] \<Rightarrow> None)
              else if t = RBRACKET then close_array stack
              else if t = RBRACE then close_object stack
              else None)
         | Done v \<Rightarrow> None))"

fun parse_tokens :: "frame list \<times> parse_mode \<Rightarrow> token list \<Rightarrow> json option" where
  "parse_tokens s [] = (case s of (stack, Done v) \<Rightarrow> Some v | _ \<Rightarrow> None)"
| "parse_tokens s (t # ts) =
     (case parse_step s t of
        None \<Rightarrow> None
      | Some s' \<Rightarrow> parse_tokens s' ts)"

text \<open>\<open>JSON.parse\<close> of a string: the value, or a \<open>SyntaxError\<close>.\<close>

definition JSON_parse :: "jsstring \<Rightarrow> exception + json" where
  "JSON_parse text =
     (case lex_all LStart text of
        None \<Rightarrow> Inl SyntaxError
      | Some ts \<Rightarrow>
          (case parse_tokens ([], ExpectValue) ts of
             None \<Rightarrow> Inl SyntaxError
           | Some v \<Rightarrow> Inr v))"

subsection \<open>\<open>JSON.stringify\<close>\<close>

text \<open>
  \<open>QuoteJSONString\<close> escapes the quote, the backslash and the controls below \<open>0x20\<close>,
  writes a surrogate that has no partner as \<open>\<^verbatim>\<open>\u\<close>\<close> and four hexadecimal digits, and
  copies every other code unit.
\<close>

definition hex_digit :: "nat \<Rightarrow> code_unit" where
  "hex_digit d = (if d < 10 then of_nat (48 + d) else of_nat (87 + d))"

definition unicode_escape :: "code_unit \<Rightarrow> jsstring" where
  "unicode_escape c =
     (let n = unat c
      in [0x5C, ch CHR ''u'', hex_digit (n div 4096), hex_digit (n div 256 mod 16),
          hex_digit (n div 16 mod 16), hex_digit (n mod 16)])"

definition is_high_surrogate :: "code_unit \<Rightarrow> bool" where
  "is_high_surrogate c \<longleftrightarrow> 0xD800 \<le> c \<and> c \<le> 0xDBFF"

definition is_low_surrogate :: "code_unit \<Rightarrow> bool" where
  "is_low_surrogate c \<longleftrightarrow> 0xDC00 \<le> c \<and> c \<le> 0xDFFF"

definition quote_unit :: "code_unit \<Rightarrow> jsstring" where
  "quote_unit c =
     (if c = 8 then [0x5C, ch CHR ''b'']
      else if c = 9 then [0x5C, ch CHR ''t'']
      else if c = 10 then [0x5C, ch CHR ''n'']
      else if c = 12 then [0x5C, ch CHR ''f'']
      else if c = 13 then [0x5C, ch CHR ''r'']
      else if c = 0x22 then [0x5C, 0x22]
      else if c = 0x5C then [0x5C, 0x5C]
      else if c < 0x20 \<or> is_high_surrogate c \<or> is_low_surrogate c then unicode_escape c
      else [c])"

fun quote_units :: "jsstring \<Rightarrow> jsstring" where
  "quote_units [] = []"
| "quote_units [c] = quote_unit c"
| "quote_units (c # d # cs) =
     (if is_high_surrogate c \<and> is_low_surrogate d then c # d # quote_units cs
      else quote_unit c @ quote_units (d # cs))"

definition QuoteJSONString :: "jsstring \<Rightarrow> jsstring" where
  "QuoteJSONString s = [0x22] @ quote_units s @ [0x22]"

definition join :: "jsstring \<Rightarrow> jsstring list \<Rightarrow> jsstring" where
  "join sep xs = (case xs of [] \<Rightarrow> [] | x # rest \<Rightarrow> x @ concat (map (\<lambda>y. sep @ y) rest))"

fun JSON_stringify :: "json \<Rightarrow> jsstring" where
  "JSON_stringify JNull = js ''null''"
| "JSON_stringify (JBool b) = (if b then js ''true'' else js ''false'')"
| "JSON_stringify (JNumber n) =
     (case n of Finite r \<Rightarrow> Number_toString n | _ \<Rightarrow> js ''null'')"
| "JSON_stringify (JString s) = QuoteJSONString s"
| "JSON_stringify (JArray vs) =
     [ch CHR ''[''] @ join [ch CHR '',''] (map JSON_stringify vs) @ [ch CHR '']'']"
| "JSON_stringify (JObject ps) =
     [ch CHR ''{'']
     @ join [ch CHR '','']
         (map (\<lambda>p. QuoteJSONString (fst p) @ [ch CHR '':''] @ JSON_stringify (snd p)) ps)
     @ [ch CHR ''}'']"

text \<open>
  \<open>JSON.stringify\<close> descends into a value once per level of nesting, and an engine throws
  a \<open>RangeError\<close> when the descent exhausts its stack. \<open>json_depth\<close> is the nesting of a
  value; \<open>JSON_stringify_within limit\<close> is \<open>JSON.stringify\<close> in an engine whose stack
  affords \<open>limit\<close> levels.
\<close>

fun json_depth :: "json \<Rightarrow> nat" where
  "json_depth (JArray vs) = Suc (foldr max (map json_depth vs) 0)"
| "json_depth (JObject ps) = Suc (foldr max (map (\<lambda>p. json_depth (snd p)) ps) 0)"
| "json_depth v = 0"

definition JSON_stringify_within :: "nat \<Rightarrow> json \<Rightarrow> exception + jsstring" where
  "JSON_stringify_within limit v =
     (if limit < json_depth v then Inl (RangeError (js ''Maximum call stack size exceeded''))
      else Inr (JSON_stringify v))"

section \<open>\<open>Buffer.toString('utf-8')\<close>\<close>

text \<open>
  Node decodes a buffer as the UTF-8 decoder of the Encoding standard does: a byte that
  cannot start or continue a sequence ends the sequence with U+FFFD and is read again as a
  start; a sequence cut off by the end of the buffer gives U+FFFD. The code points are
  written as UTF-16, those above U+FFFF as a surrogate pair.
\<close>

datatype utf8_state = Utf8Start | Utf8Continue nat nat nat nat

definition utf8_start :: "nat \<Rightarrow> nat list \<times> utf8_state" where
  "utf8_start b =
     (if b \<le> 0x7F then ([b], Utf8Start)
      else if 0xC2 \<le> b \<and> b \<le> 0xDF then ([], Utf8Continue (b mod 32) 1 0x80 0xBF)
      else if 0xE0 \<le> b \<and> b \<le> 0xEF
        then ([], Utf8Continue (b mod 16) 2 (if b = 0xE0 then 0xA0 else 0x80)
                    (if b = 0xED then 0x9F else 0xBF))
      else if 0xF0 \<le> b \<and> b \<le> 0xF4
        then ([], Utf8Continue (b mod 8) 3 (if b = 0xF0 then 0x90 else 0x80)
                    (if b = 0xF4 then 0x8F else 0xBF))
      else ([0xFFFD], Utf8Start))"

definition utf8_step :: "utf8_state \<Rightarrow> nat \<Rightarrow> nat list \<times> utf8_state" where
  "utf8_step st b =
     (case st of
        Utf8Start \<Rightarrow> utf8_start b
      | Utf8Continue cp needed lower upper \<Rightarrow>
          (if b < lower \<or> upper < b
           then (case utf8_start b of (out, st') \<Rightarrow> (0xFFFD # out, st'))
           else if needed = 1 then ([cp * 64 + b mod 64], Utf8Start)
           else ([], Utf8Continue (cp * 64 + b mod 64) (needed - 1) 0x80 0xBF)))"

fun utf8_decode :: "utf8_state \<Rightarrow> byte list \<Rightarrow> nat list" where
  "utf8_decode st [] = (case st of Utf8Start \<Rightarrow> [] | _ \<Rightarrow> [0xFFFD])"
| "utf8_decode st (b # bs) =
     (case utf8_step st (unat b) of (out, st') \<Rightarrow> out @ utf8_decode st' bs)"

definition utf16_encode :: "nat \<Rightarrow> jsstring" where
  "utf16_encode cp =
     (if cp < 0x10000 then [of_nat cp]
      else [of_nat (0xD800 + (cp - 0x10000) div 1024), of_nat (0xDC00 + (cp - 0x10000) mod 1024)])"

definition Buffer_toString :: "byte list \<Rightarrow> jsstring" where
  "Buffer_toString buffer = concat (map utf16_encode (utf8_decode Utf8Start buffer))"

text \<open>
  The UTF-8 encoding of a Unicode scalar value (RFC 3629), which is what a text frame of a
  WebSocket carries: \<open>ws\<close> fails a connection whose text frame is not valid UTF-8.
\<close>

definition is_scalar :: "nat \<Rightarrow> bool" where
  "is_scalar cp \<longleftrightarrow> cp < 0xD800 \<or> (0xE000 \<le> cp \<and> cp < 0x110000)"

definition utf8_encode :: "nat \<Rightarrow> byte list" where
  "utf8_encode cp =
     (if cp < 0x80 then [of_nat cp]
      else if cp < 0x800 then [of_nat (0xC0 + cp div 64), of_nat (0x80 + cp mod 64)]
      else if cp < 0x10000
        then [of_nat (0xE0 + cp div 4096), of_nat (0x80 + cp div 64 mod 64),
              of_nat (0x80 + cp mod 64)]
      else [of_nat (0xF0 + cp div 262144), of_nat (0x80 + cp div 4096 mod 64),
            of_nat (0x80 + cp div 64 mod 64), of_nat (0x80 + cp mod 64)])"

section \<open>The backend relay (server.js)\<close>

text \<open>
  One session pairs \<open>clientSocket\<close>, the browser's connection, with \<open>openaiWs\<close>, the
  connection to the API. What a handler does is the list of the calls it makes on the two
  sockets, in order; writes to the console are left out. The two sockets are objects of
  the \<open>ws\<close> library. Its \<open>send\<close> throws while the socket is still connecting and otherwise
  takes the data (and drops them when the socket is closing or closed); its \<open>close\<close> does
  not throw. \<open>clientSocket\<close> is handed to the connection handler open and is never
  connecting, so only \<open>openaiWs.send\<close> can throw, and the session state is the ready state
  of \<open>openaiWs\<close>.
\<close>

datatype ready_state = CONNECTING | OPEN | CLOSING | CLOSED

datatype socket = ClientSocket | OpenaiWs

datatype call = Send socket jsstring | Close socket

text \<open>
  A WebSocket message is a text, a sequence of Unicode scalar values, or a sequence of
  bytes. \<open>ws\<close> hands the handler of a \<open>message\<close> event a \<open>Buffer\<close> (version 8: the bytes of
  the frame, for a text its UTF-8 encoding) or, for a text in the versions before, a
  string. \<open>OtherData\<close> is a value that is neither, an \<open>ArrayBuffer\<close> or an array of
  fragments, which \<open>ws\<close> delivers only when \<open>binaryType\<close> is changed from its default; it
  is given by what \<open>ToString\<close> makes of it.
\<close>

datatype ws_message = TextMessage "nat list" | BinaryMessage "byte list"

datatype raw_data = StringData jsstring | BufferData "byte list" | OtherData jsstring

datatype ws_version = Ws7 | Ws8

definition utf16_string :: "nat list \<Rightarrow> jsstring" where
  "utf16_string cps = concat (map utf16_encode cps)"

definition deliver :: "ws_version \<Rightarrow> ws_message \<Rightarrow> raw_data" where
  "deliver version m =
     (case m of
        BinaryMessage bytes \<Rightarrow> BufferData bytes
      | TextMessage cps \<Rightarrow>
          (case version of
             Ws7 \<Rightarrow> StringData (utf16_string cps)
           | Ws8 \<Rightarrow> BufferData (concat (map utf8_encode cps))))"

text \<open>The text of an ASCII literal, for closed examples.\<close>

definition ascii :: "string \<Rightarrow> nat list" where
  "ascii s = map of_char s"

definition data_toString :: "raw_data \<Rightarrow> jsstring" where
  "data_toString data =
     (case data of
        StringData s \<Rightarrow> s
      | BufferData b \<Rightarrow> Buffer_toString b
      | OtherData s \<Rightarrow> s)"

definition ws_send :: "ready_state \<Rightarrow> socket \<Rightarrow> jsstring \<Rightarrow> exception + call list" where
  "ws_send readyState sock data =
     (if readyState = CONNECTING
      then Inl (Error (js ''WebSocket is not open: readyState 0 (CONNECTING)''))
      else Inr [Send sock data])"

text \<open>
  What the program takes from the JavaScript engine it runs on: the message of the
  \<open>SyntaxError\<close> that \<open>JSON.parse\<close> throws for a text, the nesting that \<open>JSON.stringify\<close> can
  descend before the stack is exhausted, and the nesting that \<open>Array.prototype.join\<close> can.
  \<open>example_engine\<close> serves closed examples: its message is what V8 reports for a JSON text
  that ends early.
\<close>

record engine =
  syntax_message :: "jsstring \<Rightarrow> jsstring"
  stringify_depth :: nat
  join_depth :: nat

definition example_engine :: engine where
  "example_engine =
     \<lparr>syntax_message = (\<lambda>t. js ''Unexpected end of JSON input''),
      stringify_depth = 1000, join_depth = 1000\<rparr>"

text \<open>
  The error event of lines 58-64 and 82-88, and the \<open>message\<close> property of a caught
  exception. The error event is two levels deep and short, so serialising it is within
  every engine's stack.
\<close>

definition errorEvent :: "jsstring \<Rightarrow> jsstring \<Rightarrow> json" where
  "errorEvent message details =
     JObject [(js ''type'', JString (js ''error'')),
              (js ''error'', JObject [(js ''message'', JString message),
                                      (js ''details'', JString details)])]"

definition exception_message :: "engine \<Rightarrow> jsstring \<Rightarrow> exception \<Rightarrow> jsstring" where
  "exception_message eng txt e =
     (case e of
        Error m \<Rightarrow> m
      | RangeError m \<Rightarrow> m
      | _ \<Rightarrow> syntax_message eng txt)"

text \<open>\<open>openaiWs.on('message')\<close>, lines 42-53.\<close>

definition openaiWs_on_message :: "raw_data \<Rightarrow> call list" where
  "openaiWs_on_message data =
     (case data of
        BufferData b \<Rightarrow> [Send ClientSocket (Buffer_toString b)]
      | StringData s \<Rightarrow> [Send ClientSocket s]
      | OtherData s \<Rightarrow> [])"

text \<open>\<open>openaiWs.on('error')\<close>, lines 55-66; the argument is the error's message.\<close>

definition openaiWs_on_error :: "jsstring \<Rightarrow> call list" where
  "openaiWs_on_error error_message =
     [Send ClientSocket
        (JSON_stringify (errorEvent (js ''Failed to connect to OpenAI Realtime API.'') error_message))]"

text \<open>\<open>openaiWs.on('close')\<close>, lines 68-71.\<close>

definition openaiWs_on_close :: "call list" where
  "openaiWs_on_close = [Close ClientSocket]"

text \<open>
  \<open>clientSocket.on('message')\<close>, lines 74-91: the \<open>try\<close> block parses the message,
  serialises the event and sends it to \<open>openaiWs\<close>; whatever one of the three throws is
  caught and reported to the client.
\<close>

definition clientSocket_on_message :: "engine \<Rightarrow> ready_state \<Rightarrow> raw_data \<Rightarrow> call list" where
  "clientSocket_on_message eng openai_state message =
     (let txt = data_toString message;
          attempt = (case JSON_parse txt of
                       Inl e \<Rightarrow> Inl e
                     | Inr event \<Rightarrow>
                         (case JSON_stringify_within (stringify_depth eng) event of
                            Inl e \<Rightarrow> Inl e
                          | Inr payload \<Rightarrow> ws_send openai_state OpenaiWs payload))
      in case attempt of
           Inr calls \<Rightarrow> calls
         | Inl e \<Rightarrow>
             [Send ClientSocket
                (JSON_stringify
                   (errorEvent (js ''Invalid JSON format sent to server.'')
                      (exception_message eng txt e)))])"

text \<open>\<open>clientSocket.on('close')\<close> and \<open>clientSocket.on('error')\<close>, lines 93-101.\<close>

definition clientSocket_on_close :: "call list" where
  "clientSocket_on_close = [Close OpenaiWs]"

definition clientSocket_on_error :: "jsstring \<Rightarrow> call list" where
  "clientSocket_on_error error_message = [Close OpenaiWs]"

text \<open>
  The events of a session and its steps. The ready state of \<open>openaiWs\<close> is \<open>ws\<close>'s: the
  socket is connecting when the session starts, open from its \<open>open\<close> event, closing from a
  call of \<open>close\<close> or an \<open>error\<close> event, and closed from its \<open>close\<close> event.
\<close>

datatype event =
    OpenaiOpen
  | OpenaiMessage raw_data
  | OpenaiError jsstring
  | OpenaiClose
  | ClientMessage raw_data
  | ClientClose
  | ClientError jsstring

text \<open>
  The events that end a side of the pair, a \<open>close\<close> or an \<open>error\<close> of that socket, and the
  messages of the API.
\<close>

definition is_client_end :: "event \<Rightarrow> bool" where
  "is_client_end ev = (case ev of ClientClose \<Rightarrow> True | ClientError m \<Rightarrow> True | _ \<Rightarrow> False)"

definition is_api_end :: "event \<Rightarrow> bool" where
  "is_api_end ev = (case ev of OpenaiClose \<Rightarrow> True | OpenaiError m \<Rightarrow> True | _ \<Rightarrow> False)"

definition is_api_message :: "event \<Rightarrow> bool" where
  "is_api_message ev = (case ev of OpenaiMessage data \<Rightarrow> True | _ \<Rightarrow> False)"

definition handle :: "engine \<Rightarrow> ready_state \<Rightarrow> event \<Rightarrow> call list" where
  "handle eng openai_state ev =
     (case ev of
        OpenaiOpen \<Rightarrow> []
      | OpenaiMessage data \<Rightarrow> openaiWs_on_message data
      | OpenaiError m \<Rightarrow> openaiWs_on_error m
      | OpenaiClose \<Rightarrow> openaiWs_on_close
      | ClientMessage data \<Rightarrow> clientSocket_on_message eng openai_state data
      | ClientClose \<Rightarrow> clientSocket_on_close
      | ClientError m \<Rightarrow> clientSocket_on_error m)"

definition ws_close :: "ready_state \<Rightarrow> ready_state" where
  "ws_close readyState = (if readyState = CLOSED then CLOSED else CLOSING)"

definition next_state :: "ready_state \<Rightarrow> event \<Rightarrow> call list \<Rightarrow> ready_state" where
  "next_state openai_state ev calls =
     (let s = (case ev of
                 OpenaiOpen \<Rightarrow> OPEN
               | OpenaiError m \<Rightarrow> CLOSING
               | OpenaiClose \<Rightarrow> CLOSED
               | _ \<Rightarrow> openai_state)
      in if Close OpenaiWs \<in> set calls then ws_close s else s)"

text \<open>The calls of a list that are made on one socket.\<close>

definition calls_on :: "socket \<Rightarrow> call list \<Rightarrow> call list" where
  "calls_on sock calls =
     filter (\<lambda>c. case c of Send s payload \<Rightarrow> s = sock | Close s \<Rightarrow> s = sock) calls"

fun run :: "engine \<Rightarrow> ready_state \<Rightarrow> event list \<Rightarrow> call list list" where
  "run eng openai_state [] = []"
| "run eng openai_state (ev # evs) =
     (let calls = handle eng openai_state ev
      in calls # run eng (next_state openai_state ev calls) evs)"

text \<open>
  \<open>ws\<close> follows every \<open>error\<close> event of a socket with the \<open>close\<close> event of that socket.
  \<open>error_then_close evs\<close> says so of a sequence of events.
\<close>

fun error_then_close :: "event list \<Rightarrow> bool" where
  "error_then_close [] = True"
| "error_then_close (ev # evs) =
     ((case ev of
         OpenaiError m \<Rightarrow> OpenaiClose \<in> set evs
       | ClientError m \<Rightarrow> ClientClose \<in> set evs
       | _ \<Rightarrow> True)
      \<and> error_then_close evs)"

text \<open>
  An error event as the client sees it: a text that parses to an object whose \<open>type\<close> is
  \<open>"error"\<close> and whose \<open>error\<close> is an object with a string \<open>message\<close>.
\<close>

definition is_error_event :: "jsstring \<Rightarrow> bool" where
  "is_error_event payload =
     (case JSON_parse payload of
        Inl e \<Rightarrow> False
      | Inr v \<Rightarrow>
          get_property v (js ''type'') = Some (JString (js ''error'')) \<and>
          (case get_property v (js ''error'') of
             Some err \<Rightarrow> (case get_property err (js ''message'') of
                             Some (JString m) \<Rightarrow> True
                           | _ \<Rightarrow> False)
           | None \<Rightarrow> False))"

section \<open>The client component (App.js)\<close>

text \<open>
  A JavaScript value read from a parsed event is a JSON value or \<open>undefined\<close>. Reading a
  property of \<open>undefined\<close> or \<open>null\<close> throws a \<open>TypeError\<close>; an object gives its own
  property, and every other read gives \<open>undefined\<close> (none of the property names the
  component reads is defined on a prototype).
\<close>

datatype jsvalue = Undefined | Value json

definition js_get :: "jsvalue \<Rightarrow> jsstring \<Rightarrow> exception + jsvalue" where
  "js_get v k =
     (case v of
        Undefined \<Rightarrow> Inl TypeError
      | Value JNull \<Rightarrow> Inl TypeError
      | Value (JObject ps) \<Rightarrow> Inr (case map_of ps k of None \<Rightarrow> Undefined | Some x \<Rightarrow> Value x)
      | Value other \<Rightarrow> Inr Undefined)"

definition truthy :: "jsvalue \<Rightarrow> bool" where
  "truthy v =
     (case v of
        Undefined \<Rightarrow> False
      | Value JNull \<Rightarrow> False
      | Value (JBool b) \<Rightarrow> b
      | Value (JNumber n) \<Rightarrow> n \<noteq> NaN \<and> n \<noteq> Finite 0
      | Value (JString s) \<Rightarrow> s \<noteq> []
      | Value other \<Rightarrow> True)"

text \<open>
  \<open>ToString\<close> of a JSON value. An array is its elements joined by commas, \<open>null\<close> written
  as nothing; an object is \<open>[object Object]\<close>, unless it has a property \<open>toString\<close> of its
  own, which hides the inherited method and makes the conversion throw.
\<close>

fun sequence :: "(exception + 'a) list \<Rightarrow> exception + 'a list" where
  "sequence [] = Inr []"
| "sequence (Inl e # rs) = Inl e"
| "sequence (Inr x # rs) = (case sequence rs of Inl e \<Rightarrow> Inl e | Inr xs \<Rightarrow> Inr (x # xs))"

fun js_ToString :: "json \<Rightarrow> exception + jsstring" where
  "js_ToString JNull = Inr (js ''null'')"
| "js_ToString (JBool b) = Inr (if b then js ''true'' else js ''false'')"
| "js_ToString (JNumber n) = Inr (Number_toString n)"
| "js_ToString (JString s) = Inr s"
| "js_ToString (JArray vs) =
     (case sequence (map (\<lambda>v. if v = JNull then Inr [] else js_ToString v) vs) of
        Inl e \<Rightarrow> Inl e
      | Inr strs \<Rightarrow> Inr (join [ch CHR '',''] strs))"
| "js_ToString (JObject ps) =
     (if js ''toString'' \<in> fst ` set ps then Inl TypeError else Inr (js ''[object Object]''))"

text \<open>
  The conversion of an array descends through \<open>Array.prototype.join\<close> once per level of
  arrays nested directly in arrays, and throws a \<open>RangeError\<close> when that exhausts the
  engine's stack; an object inside an array is not descended into.
\<close>

fun array_depth :: "json \<Rightarrow> nat" where
  "array_depth (JArray vs) = Suc (foldr max (map array_depth vs) 0)"
| "array_depth v = 0"

definition js_ToString_within :: "nat \<Rightarrow> json \<Rightarrow> exception + jsstring" where
  "js_ToString_within limit v =
     (if limit < array_depth v then Inl (RangeError (js ''Maximum call stack size exceeded''))
      else js_ToString v)"

definition ToString :: "engine \<Rightarrow> jsvalue \<Rightarrow> exception + jsstring" where
  "ToString eng v =
     (case v of
        Undefined \<Rightarrow> Inr (js ''undefined'')
      | Value x \<Rightarrow> js_ToString_within (join_depth eng) x)"

text \<open>\<open>Array.prototype.join\<close> with the empty separator, on an array of JSON values.\<close>

definition array_join :: "engine \<Rightarrow> json list \<Rightarrow> exception + jsstring" where
  "array_join eng vs =
     (case sequence (map (\<lambda>v. if v = JNull then Inr [] else js_ToString_within (join_depth eng) v) vs) of
        Inl e \<Rightarrow> Inl e
      | Inr strs \<Rightarrow> Inr (concat strs))"

text \<open>
  An entry of the message list: its role and the properties \<open>text\<close> and \<open>audio\<close>, each
  absent or holding a value. The state of the component is the message list, the buffer
  of audio deltas (\<open>audioBufferRef\<close>) and the recording flag.
\<close>

record message =
  msg_role :: jsstring
  msg_text :: "jsvalue option"
  msg_audio :: "jsvalue option"

definition text_message :: "jsstring \<Rightarrow> jsvalue \<Rightarrow> message" where
  "text_message r t = \<lparr>msg_role = r, msg_text = Some t, msg_audio = None\<rparr>"

definition audio_message :: "jsstring \<Rightarrow> jsvalue \<Rightarrow> message" where
  "audio_message r a = \<lparr>msg_role = r, msg_text = None, msg_audio = Some a\<rparr>"

definition system_message :: "string \<Rightarrow> message" where
  "system_message t = text_message (js ''system'') (Value (JString (js t)))"

record ui_state =
  messages :: "message list"
  audioBufferRef :: "json list"
  isRecording :: bool

definition add_message :: "message \<Rightarrow> ui_state \<Rightarrow> ui_state" where
  "add_message m s = s\<lparr>messages := messages s @ [m]\<rparr>"

text \<open>
  How a handler ends: it returns, it throws (the state updates made before stand), or an
  updater it queued throws when React runs it, which unmounts the component.
\<close>

datatype outcome = Returned ui_state | Threw exception ui_state | Crashed exception

text \<open>
  \<open>handleConversationItemCreated\<close>, lines 124-148; the loop is \<open>item.content.forEach\<close>.
  The properties \<open>text\<close> and \<open>audio\<close> of the content item are read when React runs the
  updater. The hidden audio player is attached as long as the component is mounted, so
  after an audio item is queued the template literal of line 142 converts its \<open>audio\<close> to
  a string; if that throws, the rest of the content is not visited.
\<close>

fun content_forEach :: "engine \<Rightarrow> json list \<Rightarrow> ui_state \<Rightarrow> outcome" where
  "content_forEach eng [] s = Returned s"
| "content_forEach eng (contentItem # rest) s =
     (case js_get (Value contentItem) (js ''type'') of
        Inl e \<Rightarrow> Threw e s
      | Inr t \<Rightarrow>
          (if t = Value (JString (js ''text''))
           then (case js_get (Value contentItem) (js ''text'') of
                   Inl e \<Rightarrow> Crashed e
                 | Inr x \<Rightarrow>
                     content_forEach eng rest (add_message (text_message (js ''assistant'') x) s))
           else if t = Value (JString (js ''audio''))
           then (case js_get (Value contentItem) (js ''audio'') of
                   Inl e \<Rightarrow> Crashed e
                 | Inr x \<Rightarrow>
                     (let s1 = add_message (audio_message (js ''assistant'') x) s
                      in case ToString eng x of
                           Inl e \<Rightarrow> Threw e s1
                         | Inr src \<Rightarrow> content_forEach eng rest s1))
           else content_forEach eng rest s))"

definition handleConversationItemCreated :: "engine \<Rightarrow> jsvalue \<Rightarrow> ui_state \<Rightarrow> outcome" where
  "handleConversationItemCreated eng item s =
     (case js_get item (js ''type'') of
        Inl e \<Rightarrow> Threw e s
      | Inr t \<Rightarrow>
          (if t \<noteq> Value (JString (js ''message'')) then Returned s
           else (case js_get item (js ''role'') of
                   Inl e \<Rightarrow> Threw e s
                 | Inr r \<Rightarrow>
                     (if r \<noteq> Value (JString (js ''assistant'')) then Returned s
                      else (case js_get item (js ''content'') of
                              Inl e \<Rightarrow> Threw e s
                            | Inr (Value (JArray content)) \<Rightarrow> content_forEach eng content s
                            | Inr other \<Rightarrow> Threw TypeError s)))))"

text \<open>
  \<open>handleResponseAudioDelta\<close>, lines 155-182. The updater replaces the audio of the last
  message when that message is the assistant's and has audio, and appends a new message
  otherwise.
\<close>

definition update_last_audio :: "jsstring \<Rightarrow> message list \<Rightarrow> message list" where
  "update_last_audio combinedAudio prev =
     (if prev \<noteq> [] \<and> msg_role (last prev) = js ''assistant''
         \<and> (case msg_audio (last prev) of None \<Rightarrow> False | Some a \<Rightarrow> truthy a)
      then butlast prev @ [(last prev)\<lparr>msg_audio := Some (Value (JString combinedAudio))\<rparr>]
      else prev @ [audio_message (js ''assistant'') (Value (JString combinedAudio))])"

definition handleResponseAudioDelta :: "engine \<Rightarrow> jsvalue \<Rightarrow> ui_state \<Rightarrow> outcome" where
  "handleResponseAudioDelta eng data s =
     (case js_get data (js ''audio_delta'') of
        Inl e \<Rightarrow> Threw e s
      | Inr Undefined \<Rightarrow> Returned s
      | Inr (Value audio_delta) \<Rightarrow>
          (if truthy (Value audio_delta)
           then (let s1 = s\<lparr>audioBufferRef := audioBufferRef s @ [audio_delta]\<rparr>
                 in case array_join eng (audioBufferRef s1) of
                      Inl e \<Rightarrow> Threw e s1
                    | Inr combinedAudio \<Rightarrow>
                        Returned (s1\<lparr>messages := update_last_audio combinedAudio (messages s1)\<rparr>))
           else Returned s))"

text \<open>\<open>handleResponseAudioDone\<close>, lines 188-197.\<close>

definition handleResponseAudioDone :: "jsvalue \<Rightarrow> ui_state \<Rightarrow> outcome" where
  "handleResponseAudioDone data s =
     Returned ((add_message (system_message ''Audio response completed.'') s)\<lparr>audioBufferRef := []\<rparr>)"

text \<open>\<open>handleResponseAudioTranscriptDone\<close>, lines 203-209.\<close>

definition handleResponseAudioTranscriptDone :: "jsvalue \<Rightarrow> ui_state \<Rightarrow> outcome" where
  "handleResponseAudioTranscriptDone data s =
     (case js_get data (js ''transcript'') of
        Inl e \<Rightarrow> Threw e s
      | Inr transcript \<Rightarrow> Returned (add_message (text_message (js ''assistant'') transcript) s))"

text \<open>
  \<open>handleErrorEvent\<close>, lines 215-221: the template literal \<open>Error: ${error.message}\<close> is
  evaluated inside the updater, so what it throws is thrown when React runs the updater.
\<close>

definition handleErrorEvent :: "engine \<Rightarrow> jsvalue \<Rightarrow> ui_state \<Rightarrow> outcome" where
  "handleErrorEvent eng error s =
     (case js_get error (js ''message'') of
        Inl e \<Rightarrow> Crashed e
      | Inr m \<Rightarrow>
          (case ToString eng m of
             Inl e \<Rightarrow> Crashed e
           | Inr str \<Rightarrow>
               Returned (add_message (text_message (js ''system'') (Value (JString (js ''Error: '' @ str)))) s)))"

text \<open>
  \<open>processServerMessage\<close>, lines 90-118: the \<open>switch\<close> on \<open>data.type\<close> inside \<open>try\<close>; what
  the handlers throw is caught and logged.
\<close>

definition handleServerEvent :: "engine \<Rightarrow> json \<Rightarrow> ui_state \<Rightarrow> outcome" where
  "handleServerEvent eng data s =
     (case js_get (Value data) (js ''type'') of
        Inl e \<Rightarrow> Threw e s
      | Inr t \<Rightarrow>
          (if t = Value (JString (js ''conversation.item.created''))
           then (case js_get (Value data) (js ''item'') of
                   Inl e \<Rightarrow> Threw e s
                 | Inr item \<Rightarrow> handleConversationItemCreated eng item s)
           else if t = Value (JString (js ''response.audio.delta''))
           then handleResponseAudioDelta eng (Value data) s
           else if t = Value (JString (js ''response.audio.done''))
           then handleResponseAudioDone (Value data) s
           else if t = Value (JString (js ''response.audio_transcript.done''))
           then handleResponseAudioTranscriptDone (Value data) s
           else if t = Value (JString (js ''error''))
           then (case js_get (Value data) (js ''error'') of
                   Inl e \<Rightarrow> Threw e s
                 | Inr error \<Rightarrow> handleErrorEvent eng error s)
           else Returned s))"

definition processServerMessage :: "engine \<Rightarrow> jsstring \<Rightarrow> ui_state \<Rightarrow> exception + ui_state" where
  "processServerMessage eng dataStr s =
     (case JSON_parse dataStr of
        Inl e \<Rightarrow> Inr s
      | Inr data \<Rightarrow>
          (case handleServerEvent eng data s of
             Returned s' \<Rightarrow> Inr s'
           | Threw e s' \<Rightarrow> Inr s'
           | Crashed e \<Rightarrow> Inl e))"

text \<open>
  \<open>processAudio\<close>, lines 283-341, after the message of \<open>onstop\<close>: \<open>decoded\<close> is what decoding
  the recording gave and \<open>ws_open\<close> tells whether the socket to the backend is open.
\<close>

definition processAudio :: "exception + audio_buffer \<Rightarrow> bool \<Rightarrow> ui_state \<Rightarrow> ui_state" where
  "processAudio decoded ws_open s =
     (case convertBlobToPCM16Mono24kHz decoded of
        None \<Rightarrow> add_message (system_message ''Failed to process audio.'') s
      | Some processedBase64Audio \<Rightarrow>
          (if processedBase64Audio = [] then add_message (system_message ''Failed to process audio.'') s
           else if ws_open
           then add_message (system_message ''Audio sent to assistant for processing.'')
                  (add_message (audio_message (js ''user'') (Value (JString processedBase64Audio))) s)
           else add_message (system_message ''Unable to send audio. Connection is closed.'') s))"

text \<open>
  The events the component handles: those of the socket to the backend, the two buttons,
  the failure of \<open>getUserMedia\<close>, the events of the media recorder, and the end of the
  decoding that \<open>processAudio\<close> awaits. What the component sends to the backend and plays
  is left out. A step gives the next state, or the exception of an updater that makes
  React unmount the component. Rendering the new message list can fail too (an object is
  not a valid child of an element), which also unmounts the component; the steps below
  let the component go on then, which adds runs and takes none away. The engine is the
  browser's.
\<close>

datatype ui_event =
    WsOpen
  | WsMessage jsstring
  | WsError
  | WsClose
  | StartRecording
  | MicrophoneUnavailable
  | RecorderStart
  | RecorderData
  | RecorderStop
  | StopRecording
  | AudioDecoded "exception + audio_buffer" bool

definition ui_step :: "engine \<Rightarrow> ui_state \<Rightarrow> ui_event \<Rightarrow> exception + ui_state" where
  "ui_step eng s ev =
     (case ev of
        WsOpen \<Rightarrow> Inr (add_message (system_message ''Connected to assistant.'') s)
      | WsMessage dataStr \<Rightarrow> processServerMessage eng dataStr s
      | WsError \<Rightarrow> Inr (add_message (system_message ''WebSocket error occurred.'') s)
      | WsClose \<Rightarrow> Inr (add_message (system_message ''Disconnected from assistant.'') s)
      | StartRecording \<Rightarrow> Inr (s\<lparr>isRecording := True\<rparr>)
      | MicrophoneUnavailable \<Rightarrow>
          Inr (add_message (system_message ''Microphone access denied or unavailable.'')
                 (s\<lparr>isRecording := False\<rparr>))
      | RecorderStart \<Rightarrow> Inr (add_message (system_message ''Recording started...'') s)
      | RecorderData \<Rightarrow> Inr s
      | RecorderStop \<Rightarrow> Inr (add_message (system_message ''Processing audio...'') s)
      | StopRecording \<Rightarrow> Inr (s\<lparr>isRecording := False\<rparr>)
      | AudioDecoded decoded ws_open \<Rightarrow> Inr (processAudio decoded ws_open s))"

definition initial_state :: ui_state where
  "initial_state = \<lparr>messages = [], audioBufferRef = [], isRecording = False\<rparr>"


fun ui_run :: "engine \<Rightarrow> ui_state \<Rightarrow> ui_event list \<Rightarrow> exception + ui_state" where
  "ui_run eng s [] = Inr s"
| "ui_run eng s (ev # evs) =
     (case ui_step eng s ev of Inl e \<Rightarrow> Inl e | Inr s' \<Rightarrow> ui_run eng s' evs)"

text \<open>The 6-bit digits and the padding of an encoding, for the proofs.\<close>

fun sextets :: "byte list \<Rightarrow> nat list" where
  "sextets [] = []"
| "sextets [a] = (let n = unat a * 16 in [n div 64 mod 64, n mod 64])"
| "sextets [a, b] = (let n = (unat a * 256 + unat b) * 4 in [n div 4096 mod 64, n div 64 mod 64, n mod 64])"
| "sextets (a # b # c # rest) =
     (let n = (unat a * 256 + unat b) * 256 + unat c
      in [n div 262144 mod 64, n div 4096 mod 64, n div 64 mod 64, n mod 64] @ sextets rest)"

fun padding :: "byte list \<Rightarrow> jsstring" where
  "padding [] = []"
| "padding [a] = [base64_pad, base64_pad]"
| "padding [a, b] = [base64_pad]"
| "padding (a # b # c # rest) = padding rest"

text \<open>For the proofs about the lexer: the lexer on a part of the text, without the end.\<close>

fun lex_run :: "lex_state \<Rightarrow> jsstring \<Rightarrow> (token list \<times> lex_state) option" where
  "lex_run st [] = Some ([], st)"
| "lex_run st (c # cs) =
     (case lex_step st c of
        None \<Rightarrow> None
      | Some (ts, st') \<Rightarrow>
          (case lex_run st' cs of
             None \<Rightarrow> None
           | Some (ts', st'') \<Rightarrow> Some (ts @ ts', st'')))"







text \<open>
  For the proofs about \<open>float32ToPCM16\<close>. \<open>scaled_sample x\<close> is the number that the body of
  the loop passes to \<open>setInt16\<close> for the sample \<open>x\<close> (lines 408-409), and \<open>sample_bytes x\<close>
  the two bytes that \<open>setInt16\<close> writes for it.
\<close>

definition scaled_sample :: "number \<Rightarrow> number" where
  "scaled_sample x =
     (let s = Math_max (Finite (- 1)) (Math_min (Finite 1) x)
      in if js_less s (Finite 0) then js_mul s (Finite 32768) else js_mul s (Finite 32767))"

definition sample_bytes :: "number \<Rightarrow> byte list" where
  "sample_bytes x = (let w = ToInt16 (scaled_sample x) in [ucast w, ucast (drop_bit 8 w)])"

text \<open>
  What the quantization is said to compute. \<open>clamp x\<close> is the sample clamped to the interval
  from -1 to 1, for a sample that is a number; \<open>pcm16_sample x\<close> is the integer part of the
  clamped sample times \<open>0x8000\<close> when it is negative and times \<open>0x7FFF\<close> otherwise, the
  product rounded to a double as the multiplication does, and 0 for a sample that is not
  a number. \<open>int16_at bytes i\<close> reads the \<open>i\<close>-th little-endian signed 16-bit integer of
  a buffer.
\<close>

definition clamp :: "number \<Rightarrow> rat option" where
  "clamp x =
     (case x of
        NaN \<Rightarrow> None
      | NegInfinity \<Rightarrow> Some (- 1)
      | PosInfinity \<Rightarrow> Some 1
      | Finite r \<Rightarrow> Some (max (- 1) (min 1 r)))"

definition pcm16_sample :: "number \<Rightarrow> int" where
  "pcm16_sample x =
     (case clamp x of
        None \<Rightarrow> 0
      | Some c \<Rightarrow>
          (case float64 (if c < 0 then c * 32768 else c * 32767) of
             Finite y \<Rightarrow> js_truncate y
           | _ \<Rightarrow> 0))"

definition int16_at :: "byte list \<Rightarrow> nat \<Rightarrow> int" where
  "int16_at bytes i = sint (word_cat (bytes ! (2 * i + 1)) (bytes ! (2 * i)) :: 16 word)"

section \<open>Proofs\<close>

subsection \<open>Downmix\<close>

lemma averageChannels_loop_eq:
  "i \<le> len \<Longrightarrow> length result = len \<Longrightarrow>
   averageChannels_loop c1 c2 len i result =
   take i result @ map (\<lambda>k. fround (js_div (js_add (c1 ! k) (c2 ! k)) 2)) [i..<len]"
proof (induction c1 c2 len i result rule: averageChannels_loop.induct)
  case (1 c1 c2 len i result)
  let ?f = "\<lambda>k. fround (js_div (js_add (c1 ! k) (c2 ! k)) 2)"
  show ?case
  proof (cases "i < len")
    case True
    let ?r = "result[i := ?f i]"
    have "averageChannels_loop c1 c2 len i result = averageChannels_loop c1 c2 len (i + 1) ?r"
      using True by (subst averageChannels_loop.simps) simp
    also have "\<dots> = take (i + 1) ?r @ map ?f [i + 1..<len]"
      using True 1 by simp
    also have "take (i + 1) ?r = take i result @ [?f i]"
      using True 1(3) by (simp add: take_Suc_conv_app_nth)
    also have "(take i result @ [?f i]) @ map ?f [i + 1..<len] = take i result @ map ?f [i..<len]"
      using True by (simp add: upt_conv_Cons)
    finally show ?thesis .
  next
    case False
    with 1(2,3) show ?thesis by (subst averageChannels_loop.simps) simp
  qed
qed

lemma averageChannels_eq:
  "averageChannels c1 c2 =
   map (\<lambda>k. fround (js_div (js_add (c1 ! k) (c2 ! k)) 2)) [0..<min (length c1) (length c2)]"
  by (simp add: averageChannels_def Let_def averageChannels_loop_eq)

text \<open>
  C7: \<open>averageChannels\<close> returns as many samples as the shorter channel has, sample \<open>i\<close>
  being \<open>(c1[i] + c2[i]) / 2\<close> computed in double precision and stored as a Float32; the
  downmix of a decoded buffer with more than one channel is \<open>averageChannels\<close> of
  channels 0 and 1, and that of a buffer with one channel is that channel, unchanged.
\<close>

theorem downmix_average:
  "length (averageChannels c1 c2) = min (length c1) (length c2) \<and>
   (\<forall>i < min (length c1) (length c2).
      averageChannels c1 c2 ! i = fround (js_div (js_add (c1 ! i) (c2 ! i)) 2)) \<and>
   (1 < length audioBuffer \<longrightarrow>
      downmix audioBuffer = Inr (averageChannels (audioBuffer ! 0) (audioBuffer ! 1))) \<and>
   (length audioBuffer = 1 \<longrightarrow> downmix audioBuffer = Inr (audioBuffer ! 0))"
  by (simp add: averageChannels_eq downmix_def getChannelData_def)

lemma average_example: "fround (js_div (js_add (Finite (1 / 2)) (Finite (1 / 4))) 2) = Finite (3 / 8)"
  by code_simp

theorem downmix_average_witness:
  "length (averageChannels [Finite (1 / 2), Finite 1] [Finite (1 / 4)]) = 1 \<and>
   averageChannels [Finite (1 / 2), Finite 1] [Finite (1 / 4)] ! 0 = Finite (3 / 8) \<and>
   downmix [[Finite (1 / 2)], [Finite (1 / 4)]] = Inr [Finite (3 / 8)] \<and>
   downmix [[Finite (1 / 2)]] = Inr [Finite (1 / 2)]"
proof -
  have a: "averageChannels [Finite (1 / 2)] [Finite (1 / 4)] = [Finite (3 / 8)]"
    by (simp add: averageChannels_eq average_example del: js_add.simps)
  show ?thesis
    using downmix_average [of "[Finite (1 / 2), Finite 1]" "[Finite (1 / 4)]" "[[Finite (1 / 2)], [Finite (1 / 4)]]"]
      downmix_average [of "[]" "[]" "[[Finite (1 / 2)]]"]
    by (simp add: a average_example del: js_add.simps)
qed

subsection \<open>Quantization to 16-bit PCM\<close>

lemma bit_length_bounds:
  "0 < n \<Longrightarrow> 2 ^ (bit_length n - 1) \<le> n \<and> n < 2 ^ bit_length n"
proof (induction n rule: bit_length.induct)
  case (1 n)
  show ?case
  proof (cases "n div 2 = 0")
    case True
    with 1 have n1: "n = Suc 0" by (simp add: div_eq_0_iff)
    have "bit_length (Suc 0) = Suc 0"
      by (simp add: bit_length.simps [of "Suc 0"] bit_length.simps [of 0])
    with n1 show ?thesis by simp
  next
    case False
    then have pos: "0 < n div 2" by simp
    from 1 have n0: "n \<noteq> 0" by simp
    from 1(1) [OF n0 pos] have lo: "2 ^ (bit_length (n div 2) - 1) \<le> n div 2"
      and hi: "n div 2 < 2 ^ bit_length (n div 2)" by simp_all
    have bl: "bit_length n = Suc (bit_length (n div 2))"
      using n0 by (subst bit_length.simps) simp
    have blpos: "0 < bit_length (n div 2)"
      using pos by (subst bit_length.simps) simp
    then have e: "bit_length n - 1 = Suc (bit_length (n div 2) - 1)" using bl by simp
    have "2 * 2 ^ (bit_length (n div 2) - 1) \<le> 2 * (n div 2)" using lo by simp
    also have "\<dots> \<le> n" by simp
    finally have a: "2 ^ (bit_length n - 1) \<le> n" unfolding e by simp
    have "n < 2 * (n div 2) + 2" by presburger
    also have "\<dots> \<le> 2 * 2 ^ bit_length (n div 2)" using hi by simp
    finally have b: "n < 2 ^ bit_length n" unfolding bl by simp
    from a b show ?thesis by simp
  qed
qed


lemma floor_log2_le:
  assumes "0 < r"
  shows "2 powi (floor_log2 r) \<le> r"
proof -
  obtain a b where q: "quotient_of r = (a, b)" by (cases "quotient_of r")
  then have r: "r = of_int a / of_int b" and b: "0 < b"
    by (simp_all add: quotient_of_div quotient_of_denom_pos)
  with assms have a: "0 < a" by (simp add: zero_less_divide_iff)
  define A where "A = bit_length (nat a)"
  define B where "B = bit_length (nat b)"
  define d where "d = int A - int B"
  have fl: "floor_log2 r = (if 2 powi d \<le> r then d else d - 1)"
    unfolding floor_log2_def q d_def A_def B_def by (simp add: Let_def)
  have "(2::nat) ^ (A - 1) \<le> nat a"
    unfolding A_def using bit_length_bounds [of "nat a"] a by simp
  then have "int (2 ^ (A - 1)) \<le> a" using a by linarith
  then have lo: "(2::rat) ^ (A - 1) \<le> of_int a"
    by (metis of_int_le_iff of_int_of_nat_eq of_nat_numeral of_nat_power)
  have "nat b < (2::nat) ^ B"
    unfolding B_def using bit_length_bounds [of "nat b"] b by simp
  then have "b < int (2 ^ B)" using b by linarith
  then have "of_int b < (of_int (int (2 ^ B)) :: rat)" by (simp only: of_int_less_iff)
  then have hi: "of_int b \<le> (2::rat) ^ B" by simp
  have Apos: "0 < A"
    using a unfolding A_def by (subst bit_length.simps) simp
  have "(2::rat) powi (d - 1) = 2 powi (int (A - 1) - int B)"
    using Apos unfolding d_def by (simp add: of_nat_diff algebra_simps)
  also have "\<dots> = 2 powi int (A - 1) / 2 powi int B"
    by (rule power_int_diff) simp
  also have "\<dots> = 2 ^ (A - 1) / 2 ^ B" by (simp only: power_int_of_nat)
  also have "\<dots> \<le> of_int a / of_int b"
    using lo hi b a by (intro frac_le) simp_all
  finally have "2 powi (d - 1) \<le> r" unfolding r .
  then show ?thesis unfolding fl by simp
qed

lemma floor_log2_bound:
  assumes "0 < r" and "r \<le> 32768"
  shows "floor_log2 r \<le> 15"
proof (rule ccontr)
  assume "\<not> floor_log2 r \<le> 15"
  then have "16 \<le> floor_log2 r" by simp
  then have "(2::rat) powi 16 \<le> 2 powi floor_log2 r"
    by (intro power_int_increasing) simp_all
  also have "\<dots> \<le> r" using assms(1) by (rule floor_log2_le)
  finally have "(2::rat) powi 16 \<le> 32768" using assms(2) by simp
  then show False by simp
qed

lemma round_half_even_le:
  assumes "x \<le> of_int M"
  shows "round_half_even x \<le> M"
proof -
  have f: "\<lfloor>x\<rfloor> \<le> M" using assms by (simp add: floor_le_iff)
  show ?thesis
  proof (cases "x = of_int \<lfloor>x\<rfloor>")
    case True
    then have "x - of_int \<lfloor>x\<rfloor> = 0" by simp
    then show ?thesis using f by (simp add: round_half_even_def Let_def)
  next
    case False
    then have "of_int \<lfloor>x\<rfloor> < x" using of_int_floor_le [of x] by linarith
    with assms have "(of_int \<lfloor>x\<rfloor> :: rat) < of_int M" by linarith
    then have "\<lfloor>x\<rfloor> < M" by (simp only: of_int_less_iff)
    then show ?thesis by (simp add: round_half_even_def Let_def)
  qed
qed

lemma round_half_even_nonneg:
  assumes "0 \<le> x"
  shows "0 \<le> round_half_even x"
proof -
  have "0 \<le> \<lfloor>x\<rfloor>" using assms by simp
  then show ?thesis by (simp add: round_half_even_def Let_def)
qed


lemma floor_log2_zero: "floor_log2 0 = - 2"
  by (simp add: floor_log2_def bit_length.simps [of 0] bit_length.simps [of 1]
        bit_length.simps [of "Suc 0"])

lemma float64_magnitude:
  assumes "a = \<bar>r\<bar>" and "0 < a" and "a \<le> of_int N" and "N \<le> 32768"
  shows "\<exists>y. float64 r = Finite (if r < 0 then - y else y) \<and> 0 \<le> y \<and> y \<le> of_int N"
proof -
  define q where "q = max (floor_log2 a - 52) (- 1074)"
  define P :: rat where "P = 2 powi q"
  define m where "m = round_half_even (a / P)"
  define y :: rat where "y = of_int m * P"
  have aN: "a \<le> 32768"
  proof -
    have "(of_int N :: rat) \<le> of_int 32768" using assms(4) by (simp only: of_int_le_iff)
    with assms(3) show ?thesis by simp
  qed
  have "floor_log2 a \<le> 15" using assms(2) aN by (rule floor_log2_bound)
  then have q0: "q \<le> 0" unfolding q_def by simp
  have Ppos: "0 < P" unfolding P_def by simp
  define k where "k = nat (- q)"
  have Pk: "P * 2 ^ k = 1"
  proof -
    have "(2::rat) ^ k = 2 powi int k" by (simp only: power_int_of_nat)
    also have "int k = - q" using q0 unfolding k_def by simp
    finally have "P * 2 ^ k = 2 powi q * 2 powi (- q)" unfolding P_def by simp
    also have "\<dots> = 2 powi (q + (- q))" by (rule power_int_add [symmetric]) simp
    finally show ?thesis by simp
  qed
  then have inv: "1 / P = 2 ^ k" using Ppos by (simp add: field_simps)
  have "a / P \<le> of_int N / P" using assms(3) Ppos by (simp add: divide_right_mono)
  also have "of_int N / P = of_int N * (1 / P)" by simp
  also have "\<dots> = of_int (N * 2 ^ k)" unfolding inv by simp
  finally have "m \<le> N * 2 ^ k" unfolding m_def by (rule round_half_even_le)
  then have "(of_int m :: rat) \<le> of_int (N * 2 ^ k)" by (simp only: of_int_le_iff)
  then have "of_int m * P \<le> of_int (N * 2 ^ k) * P" using Ppos by (simp add: mult_right_mono)
  also have "of_int (N * 2 ^ k) * P = of_int N * (P * 2 ^ k)" by (simp add: mult.commute)
  finally have yN: "y \<le> of_int N" unfolding y_def Pk by simp
  have "0 \<le> a / P" using assms(2) Ppos by simp
  then have "0 \<le> m" unfolding m_def by (rule round_half_even_nonneg)
  then have y0: "0 \<le> y" unfolding y_def using Ppos by simp
  have fl: "\<not> 1023 < floor_log2 y"
  proof (cases "y = 0")
    case True
    then show ?thesis by (simp add: floor_log2_zero)
  next
    case False
    with y0 have "0 < y" by simp
    moreover have "y \<le> 32768"
    proof -
      have "(of_int N :: rat) \<le> of_int 32768" using assms(4) by (simp only: of_int_le_iff)
      with yN show ?thesis by simp
    qed
    ultimately have "floor_log2 y \<le> 15" by (rule floor_log2_bound)
    then show ?thesis by simp
  qed
  have r0: "r \<noteq> 0" using assms(1,2) by auto
  have "float64 r = Finite (if r < 0 then - y else y)"
    unfolding float64_def round_binary_def
    using r0 fl
    by (simp add: Let_def assms(1) [symmetric] q_def [symmetric] P_def [symmetric]
          m_def [symmetric] y_def [symmetric])
  with y0 yN show ?thesis by blast
qed

subsection \<open>Base64 round trip\<close>

lemma binary_loop_eq: "binary_loop bytes i binary = binary @ map ucast (drop i bytes)"
proof (induction bytes i binary rule: binary_loop.induct)
  case (1 bytes i binary)
  show ?case
  proof (cases "i < length bytes")
    case True
    then have "drop i bytes = bytes ! i # drop (Suc i) bytes"
      by (simp add: Cons_nth_drop_Suc)
    with True 1 show ?thesis by (subst binary_loop.simps) simp
  next
    case False
    then show ?thesis by (subst binary_loop.simps) simp
  qed
qed

lemma unat_byte_lt: "unat (b :: byte) < 256"
  using unsigned_less [of b, where ?'a = nat] by simp

lemma unat_ucast_byte: "unat (ucast (b :: byte) :: code_unit) = unat b"
  using unat_byte_lt [of b] by (simp add: unsigned_ucast_eq take_bit_nat_eq_self)

lemma ucast_byte_le: "(ucast (b :: byte) :: code_unit) \<le> 255"
  using unat_byte_lt [of b] by (simp add: word_le_nat_alt unat_ucast_byte)

lemma ucast_byte_roundtrip: "(ucast (ucast (b :: byte) :: code_unit) :: byte) = b"
  using unat_byte_lt [of b]
  by (simp add: word_unat_eq_iff unsigned_ucast_eq [where ?'c = 8] unat_ucast_byte take_bit_nat_eq_self)

lemma length_alphabet: "length base64_alphabet = 64"
  by (simp add: base64_alphabet_def js_def)

lemma distinct_alphabet: "distinct base64_alphabet"
  by (simp add: base64_alphabet_def js_def)

lemma alphabet_props: "\<forall>c \<in> set base64_alphabet. c \<noteq> base64_pad \<and> \<not> ascii_whitespace c"
  by (simp add: base64_alphabet_def js_def base64_pad_def ascii_whitespace_def)

lemma index_of_nth: "distinct xs \<Longrightarrow> i < length xs \<Longrightarrow> index_of (xs ! i) xs = Some i"
proof (induction xs arbitrary: i)
  case Nil
  then show ?case by simp
next
  case (Cons x xs)
  then show ?case by (cases i) auto
qed

lemma base64_char_in: "base64_char n \<in> set base64_alphabet"
  by (simp add: base64_char_def length_alphabet)

lemma index_base64_char: "index_of (base64_char n) base64_alphabet = Some (n mod 64)"
  unfolding base64_char_def by (rule index_of_nth [OF distinct_alphabet]) (simp add: length_alphabet)

lemma base64_char_not_pad: "base64_char n \<noteq> base64_pad"
  using alphabet_props base64_char_in by blast

lemma base64_char_not_ws: "\<not> ascii_whitespace (base64_char n)"
  using alphabet_props base64_char_in by blast

lemma pad_not_ws: "\<not> ascii_whitespace base64_pad"
  by (simp add: ascii_whitespace_def base64_pad_def)

lemma base64_char_mod: "base64_char (n mod 64) = base64_char n"
  by (simp add: base64_char_def)

lemma encode_form: "base64_encode bs = map base64_char (sextets bs) @ padding bs"
  by (induction bs rule: base64_encode.induct) (simp_all add: Let_def base64_char_mod)

lemma length_sextets: "length (sextets bs) mod 4 \<noteq> 1"
  by (induction bs rule: sextets.induct) (simp_all add: Let_def)

lemma length_encode: "length (base64_encode bs) mod 4 = 0"
  by (induction bs rule: base64_encode.induct) (simp_all add: Let_def)

lemma sextets_nonempty: "padding bs \<noteq> [] \<Longrightarrow> sextets bs \<noteq> []"
  by (induction bs rule: sextets.induct) (simp_all add: Let_def)

lemma padding_cases: "padding bs = [] \<or> padding bs = [base64_pad] \<or> padding bs = [base64_pad, base64_pad]"
  by (induction bs rule: padding.induct) simp_all

lemma last_chars_not_pad: "xs \<noteq> [] \<Longrightarrow> last (map base64_char xs) \<noteq> base64_pad"
  by (simp add: last_map base64_char_not_pad)

lemma remove_padding_encode: "remove_padding (base64_encode bs) = map base64_char (sextets bs)"
proof -
  let ?X = "map base64_char (sextets bs)"
  have len: "length (?X @ padding bs) mod 4 = 0"
    using length_encode [of bs] by (simp add: encode_form)
  consider "padding bs = []" | "padding bs = [base64_pad]" | "padding bs = [base64_pad, base64_pad]"
    using padding_cases by blast
  then have "remove_padding (?X @ padding bs) = ?X"
  proof cases
    case 1
    then show ?thesis
      using last_chars_not_pad [of "sextets bs"] by (auto simp: remove_padding_def)
  next
    case 2
    then have "sextets bs \<noteq> []" using sextets_nonempty [of bs] by simp
    with 2 len show ?thesis
      using last_chars_not_pad [of "sextets bs"] by (simp add: remove_padding_def Let_def)
  next
    case 3
    with len show ?thesis
      by (simp add: remove_padding_def Let_def butlast_append)
  qed
  then show ?thesis by (simp add: encode_form)
qed

lemma filter_ws_encode: "filter (\<lambda>c. \<not> ascii_whitespace c) (base64_encode bs) = base64_encode bs"
proof -
  have "\<forall>c \<in> set (base64_encode bs). \<not> ascii_whitespace c"
    using padding_cases [of bs] by (auto simp: encode_form base64_char_not_ws pad_not_ws)
  then show ?thesis by simp
qed

lemma sextets_bound: "\<forall>v \<in> set (sextets bs). v < 64"
  by (induction bs rule: sextets.induct) (simp_all add: Let_def)

lemma index_sextets: "map (\<lambda>c. the (index_of c base64_alphabet)) (map base64_char (sextets bs)) = sextets bs"
proof -
  have "\<And>v. v \<in> set (sextets bs) \<Longrightarrow> the (index_of (base64_char v) base64_alphabet) = v"
    using sextets_bound by (simp add: index_base64_char)
  then show ?thesis by (simp add: map_idI)
qed

lemma of_nat_unat_byte: "(of_nat (unat (b :: byte)) :: code_unit) = ucast b"
  by simp

lemma digits64_2: 
  fixes n :: nat
  assumes "n < 4096"
  shows "(n div 64 mod 64) * 64 + n mod 64 = n"
proof -
  have "n div 64 < 64" using assms by (simp add: less_mult_imp_div_less)
  then have "n div 64 mod 64 = n div 64" by (rule mod_less)
  then show ?thesis by (simp only: div_mult_mod_eq)
qed

lemma digits64_3: 
  fixes n :: nat
  assumes "n < 262144"
  shows "((n div 4096 mod 64) * 64 + n div 64 mod 64) * 64 + n mod 64 = n"
proof -
  have e: "n div 64 div 64 = n div 4096" by (simp add: div_mult2_eq)
  have "n div 64 < 4096" using assms by (simp add: less_mult_imp_div_less)
  then have "(n div 64 div 64 mod 64) * 64 + n div 64 mod 64 = n div 64" by (rule digits64_2)
  then show ?thesis by (simp only: e div_mult_mod_eq)
qed

lemma digits64_4: 
  fixes n :: nat
  assumes "n < 16777216"
  shows "(((n div 262144 mod 64) * 64 + n div 4096 mod 64) * 64 + n div 64 mod 64) * 64 + n mod 64 = n"
proof -
  have e: "n div 64 div 4096 = n div 262144" "n div 64 div 64 = n div 4096" by (simp_all add: div_mult2_eq)
  have "n div 64 < 262144" using assms by (simp add: less_mult_imp_div_less)
  then have "((n div 64 div 4096 mod 64) * 64 + n div 64 div 64 mod 64) * 64 + n div 64 mod 64 = n div 64" by (rule digits64_3)
  then show ?thesis by (simp only: e div_mult_mod_eq)
qed

lemma split3:
  fixes a b c :: nat
  assumes "b < 256" "c < 256"
  shows "((a * 256 + b) * 256 + c) div 65536 = a"
    and "((a * 256 + b) * 256 + c) div 256 mod 256 = b"
    and "((a * 256 + b) * 256 + c) mod 256 = c"
proof -
  define m where "m = a * 256 + b"
  have d: "(m * 256 + c) div 256 = m" using assms by simp
  have "(m * 256 + c) div 65536 = (m * 256 + c) div 256 div 256" by (simp add: div_mult2_eq)
  then have "(m * 256 + c) div 65536 = m div 256" by (simp only: d)
  moreover have "m div 256 = a" using assms by (simp add: m_def)
  ultimately have "(m * 256 + c) div 65536 = a" by simp
  then show "((a * 256 + b) * 256 + c) div 65536 = a" unfolding m_def .
  have "m mod 256 = b" using assms by (simp add: m_def)
  then have "(m * 256 + c) div 256 mod 256 = b" by (simp only: d)
  then show "((a * 256 + b) * 256 + c) div 256 mod 256 = b" unfolding m_def .
  have "(m * 256 + c) mod 256 = c" using assms by simp
  then show "((a * 256 + b) * 256 + c) mod 256 = c" unfolding m_def .
qed

lemma split2:
  fixes a b :: nat
  assumes "b < 256"
  shows "(a * 256 + b) * 4 div 4 div 256 = a" and "(a * 256 + b) * 4 div 4 mod 256 = b"
  using assms by simp_all

lemma bound1: "a < 256 \<Longrightarrow> a * 16 < (4096 :: nat)"
  by simp

lemma bound2: "a < 256 \<Longrightarrow> b < 256 \<Longrightarrow> (a * 256 + b) * 4 < (262144 :: nat)"
  by simp

lemma bound3: "a < 256 \<Longrightarrow> b < 256 \<Longrightarrow> c < 256 \<Longrightarrow> (a * 256 + b) * 256 + c < (16777216 :: nat)"
  by simp

lemma loop2:
  "base64_loop [d1, d0] 0 0 out = out @ [of_nat ((d1 * 64 + d0) div 16)]"
  by (simp add: Let_def)

lemma loop3:
  "base64_loop [d2, d1, d0] 0 0 out =
   out @ [of_nat (((d2 * 64 + d1) * 64 + d0) div 4 div 256), of_nat (((d2 * 64 + d1) * 64 + d0) div 4 mod 256)]"
  by (simp add: Let_def)

lemma loop4:
  "base64_loop (d3 # d2 # d1 # d0 # vs) 0 0 out =
   base64_loop vs 0 0
     (out @ [of_nat ((((d3 * 64 + d2) * 64 + d1) * 64 + d0) div 65536),
             of_nat ((((d3 * 64 + d2) * 64 + d1) * 64 + d0) div 256 mod 256),
             of_nat ((((d3 * 64 + d2) * 64 + d1) * 64 + d0) mod 256)])"
  by (simp add: Let_def)

lemma loop_sextets: "base64_loop (sextets bs) 0 0 out = out @ map ucast bs"
proof (induction bs arbitrary: out rule: sextets.induct)
  case 1
  then show ?case by simp
next
  case (2 a)
  define n where "n = unat a * 16"
  have "n < 4096" unfolding n_def by (rule bound1 [OF unat_byte_lt])
  then have d: "(n div 64 mod 64) * 64 + n mod 64 = n" by (rule digits64_2)
  have v: "n div 16 = unat a" by (simp add: n_def)
  have "sextets [a] = [n div 64 mod 64, n mod 64]" by (simp only: sextets.simps Let_def n_def)
  then show ?case by (simp only: loop2 d v of_nat_unat_byte list.map)
next
  case (3 a b)
  define n where "n = (unat a * 256 + unat b) * 4"
  have "n < 262144" unfolding n_def by (rule bound2 [OF unat_byte_lt unat_byte_lt])
  then have d: "((n div 4096 mod 64) * 64 + n div 64 mod 64) * 64 + n mod 64 = n" by (rule digits64_3)
  have v: "n div 4 div 256 = unat a" "n div 4 mod 256 = unat b"
    unfolding n_def by (rule split2(1) [OF unat_byte_lt], rule split2(2) [OF unat_byte_lt])
  have "sextets [a, b] = [n div 4096 mod 64, n div 64 mod 64, n mod 64]"
    by (simp only: sextets.simps Let_def n_def)
  then show ?case by (simp only: loop3 d v of_nat_unat_byte list.map)
next
  case (4 a b c rest)
  define n where "n = (unat a * 256 + unat b) * 256 + unat c"
  have "n < 16777216" unfolding n_def by (rule bound3 [OF unat_byte_lt unat_byte_lt unat_byte_lt])
  then have d: "(((n div 262144 mod 64) * 64 + n div 4096 mod 64) * 64 + n div 64 mod 64) * 64 + n mod 64 = n"
    by (rule digits64_4)
  have v: "n div 65536 = unat a" "n div 256 mod 256 = unat b" "n mod 256 = unat c"
    unfolding n_def
    by (rule split3(1) [OF unat_byte_lt unat_byte_lt], rule split3(2) [OF unat_byte_lt unat_byte_lt],
        rule split3(3) [OF unat_byte_lt unat_byte_lt])
  have s: "sextets (a # b # c # rest) =
      n div 262144 mod 64 # n div 4096 mod 64 # n div 64 mod 64 # n mod 64 # sextets rest"
    by (simp only: sextets.simps Let_def n_def append_Cons append_Nil)
  have "base64_loop (sextets (a # b # c # rest)) 0 0 out =
        base64_loop (sextets rest) 0 0 (out @ [ucast a, ucast b, ucast c])"
    by (simp only: s loop4 d v of_nat_unat_byte)
  also have "\<dots> = (out @ [ucast a, ucast b, ucast c]) @ map ucast rest"
    using n_def by (rule 4)
  finally show ?case by simp
qed

lemma btoa_binary: "btoa (map ucast (bs :: byte list)) = Inr (base64_encode bs)"
proof -
  have "\<not> (\<exists>c \<in> set (map ucast bs :: jsstring). 255 < c)"
    using ucast_byte_le by (auto simp: not_less)
  moreover have "map ucast (map ucast bs :: jsstring) = bs"
    by (induction bs) (simp_all add: ucast_byte_roundtrip)
  ultimately show ?thesis by (simp add: btoa_def)
qed

lemma atob_encode: "atob (base64_encode bs) = Inr (map ucast bs)"
proof -
  let ?d = "map base64_char (sextets bs)"
  have d: "remove_padding (filter (\<lambda>c. \<not> ascii_whitespace c) (base64_encode bs)) = ?d"
    by (simp only: filter_ws_encode remove_padding_encode)
  have l: "length ?d mod 4 \<noteq> 1" using length_sextets [of bs] by simp
  have a: "\<not> (\<exists>c \<in> set ?d. index_of c base64_alphabet = None)"
  proof
    assume "\<exists>c \<in> set ?d. index_of c base64_alphabet = None"
    then obtain v where "index_of (base64_char v) base64_alphabet = None" by auto
    then show False by (simp only: index_base64_char option.distinct)
  qed
  have "atob (base64_encode bs) = Inr (base64_loop (map (\<lambda>c. the (index_of c base64_alphabet)) ?d) 0 0 [])"
    unfolding atob_def d Let_def using l a by (simp only: if_False)
  also have "\<dots> = Inr (map ucast bs)"
    by (simp only: index_sextets loop_sextets append_Nil)
  finally show ?thesis .
qed

lemma binary_string_bytes: "map ucast (map ucast (bs :: byte list) :: jsstring) = bs"
  by (induction bs) (simp_all add: ucast_byte_roundtrip)

lemma arrayBufferToBase64_eq: "arrayBufferToBase64 buffer = Inr (base64_encode buffer)"
proof -
  have "binary_loop buffer 0 [] = map ucast buffer"
    by (simp only: binary_loop_eq append_Nil drop_0)
  then show ?thesis by (simp only: arrayBufferToBase64_def btoa_binary)
qed

text \<open>
  C8: for every byte buffer, \<open>arrayBufferToBase64\<close> returns a string (it never throws), and
  base64-decoding that string with \<open>atob\<close> returns the binary string whose code units are
  exactly the bytes of the buffer, in order.
\<close>

theorem arrayBufferToBase64_roundtrip:
  "\<exists>s binary. arrayBufferToBase64 buffer = Inr s \<and> atob s = Inr binary \<and> map ucast binary = buffer"
proof (intro exI conjI)
  show "arrayBufferToBase64 buffer = Inr (base64_encode buffer)" by (rule arrayBufferToBase64_eq)
  show "atob (base64_encode buffer) = Inr (map ucast buffer)" by (rule atob_encode)
  show "map ucast (map ucast buffer :: jsstring) = buffer" by (rule binary_string_bytes)
qed

subsection \<open>Quoted strings are read back by the lexer\<close>

lemma lex_append:
  "lex_all st (xs @ ys) =
   (case lex_run st xs of None \<Rightarrow> None | Some (ts, st') \<Rightarrow> map_option (\<lambda>rest. ts @ rest) (lex_all st' ys))"
proof (induction xs arbitrary: st)
  case Nil
  then show ?case by (cases "lex_all st ys") simp_all
next
  case (Cons c cs)
  show ?case
  proof (cases "lex_step st c")
    case None
    then show ?thesis by simp
  next
    case (Some r)
    obtain ts st' where r: "r = (ts, st')" by (cases r)
    show ?thesis
    proof (cases "lex_run st' cs")
      case None
      with Some r Cons [of st'] show ?thesis by simp
    next
      case (Some r')
      obtain ts' st'' where r': "r' = (ts', st'')" by (cases r')
      from \<open>lex_step st c = Some r\<close> r Some r' Cons [of st'] show ?thesis
        by (cases "lex_all st'' ys") simp_all
    qed
  qed
qed

lemma lex_run_append:
  "lex_run st (xs @ ys) =
   (case lex_run st xs of
      None \<Rightarrow> None
    | Some (ts, st') \<Rightarrow>
        (case lex_run st' ys of None \<Rightarrow> None | Some (ts', st'') \<Rightarrow> Some (ts @ ts', st'')))"
proof (induction xs arbitrary: st)
  case Nil
  then show ?case by (simp split: option.splits)
next
  case (Cons c cs)
  show ?case
    by (simp add: Cons split: option.splits)
qed

lemma lex_run_step:
  "lex_step st c = Some (ts, st') \<Longrightarrow> lex_run st' cs = Some (ts', st'') \<Longrightarrow>
   lex_run st (c # cs) = Some (ts @ ts', st'')"
  by simp

lemma hex_digits_ok: "list_all (\<lambda>d. hex_value (hex_digit d) = Some d) [0..<16]"
  by code_simp

lemma hex_value_digit: "d < 16 \<Longrightarrow> hex_value (hex_digit d) = Some d"
  using hex_digits_ok by (simp add: list_all_iff)

lemma digits16:
  fixes n :: nat
  assumes "n < 65536"
  shows "16 * (16 * (16 * (n div 4096) + n div 256 mod 16) + n div 16 mod 16) + n mod 16 = n"
proof -
  have a: "n div 16 div 16 = n div 256" "n div 256 div 16 = n div 4096"
    by (simp_all add: div_mult2_eq)
  have "n div 4096 < 16" using assms by (simp add: less_mult_imp_div_less)
  then have "n div 256 div 16 mod 16 = n div 4096" by (simp only: a mod_less)
  have b: "16 * (n div 256 div 16) + n div 256 mod 16 = n div 256" by (rule mult_div_mod_eq)
  have c: "16 * (n div 16 div 16) + n div 16 mod 16 = n div 16" by (rule mult_div_mod_eq)
  have d: "16 * (n div 16) + n mod 16 = n" by (rule mult_div_mod_eq)
  show ?thesis using b c d by (simp only: a)
qed

lemma unicode_escape_lex:
  "lex_run (LString acc) (unicode_escape c) = Some ([], LString (c # acc))"
proof -
  define n where "n = unat c"
  have n: "n < 65536" using unsigned_less [of c, where ?'a = nat] by (simp add: n_def)
  define h1 where "h1 = n div 4096"
  define h2 where "h2 = n div 256 mod 16"
  define h3 where "h3 = n div 16 mod 16"
  define h4 where "h4 = n mod 16"
  have h: "h1 < 16" "h2 < 16" "h3 < 16" "h4 < 16"
    using n by (simp_all add: h1_def h2_def h3_def h4_def less_mult_imp_div_less)
  have v: "16 * (16 * (16 * h1 + h2) + h3) + h4 = n"
    unfolding h1_def h2_def h3_def h4_def using n by (rule digits16)
  have u: "unicode_escape c = [0x5C, ch CHR ''u'', hex_digit h1, hex_digit h2, hex_digit h3, hex_digit h4]"
    by (simp add: unicode_escape_def Let_def n_def h1_def h2_def h3_def h4_def)
  have e: "ch CHR ''u'' \<noteq> 0x22" "0x5C \<noteq> (0x22 :: code_unit)"
    by (simp_all add: ch_def)
  have c: "(of_nat n :: code_unit) = c" by (simp add: n_def)
  have f: "(of_nat (16 * (16 * (16 * h1 + h2) + h3) + h4) :: code_unit) = c"
    by (simp only: v c)
  show ?thesis
    unfolding u using f
    by (simp add: lex_step_def hex_value_digit h)
qed


lemma plain_unit_lex:
  assumes "c \<noteq> 0x22" and "c \<noteq> 0x5C" and "\<not> c < 0x20"
  shows "lex_step (LString acc) c = Some ([], LString (c # acc))"
  using assms by (simp add: lex_step_def)

lemma surrogate_plain:
  assumes "is_high_surrogate c \<or> is_low_surrogate c"
  shows "c \<noteq> 0x22 \<and> c \<noteq> 0x5C \<and> \<not> c < 0x20"
  using assms
  by (auto simp: is_high_surrogate_def is_low_surrogate_def word_le_nat_alt word_less_nat_alt)

lemma quote_unit_lex: "lex_run (LString acc) (quote_unit c) = Some ([], LString (c # acc))"
proof -
  consider "c = 8" | "c = 9" | "c = 10" | "c = 12" | "c = 13" | "c = 0x22" | "c = 0x5C"
    | "c \<notin> {8, 9, 10, 12, 13, 0x22, 0x5C}" "c < 0x20 \<or> is_high_surrogate c \<or> is_low_surrogate c"
    | "c \<notin> {8, 9, 10, 12, 13, 0x22, 0x5C}" "\<not> (c < 0x20 \<or> is_high_surrogate c \<or> is_low_surrogate c)"
    by blast
  then show ?thesis
  proof cases
    case 8
    then have "quote_unit c = unicode_escape c" by (simp add: quote_unit_def)
    then show ?thesis by (simp only: unicode_escape_lex)
  next
    case 9
    then have "quote_unit c = [c]" by (simp add: quote_unit_def)
    moreover from 9 have "lex_step (LString acc) c = Some ([], LString (c # acc))"
      by (intro plain_unit_lex) simp_all
    ultimately show ?thesis by simp
  qed (simp_all add: quote_unit_def lex_step_def escape_value_def ch_def)
qed

lemma quote_units_lex: "lex_run (LString acc) (quote_units s) = Some ([], LString (rev s @ acc))"
proof (induction s arbitrary: acc rule: quote_units.induct)
  case 1
  then show ?case by simp
next
  case (2 c)
  then show ?case by (simp add: quote_unit_lex)
next
  case (3 c d cs)
  show ?case
  proof (cases "is_high_surrogate c \<and> is_low_surrogate d")
    case True
    then have "lex_step (LString acc) c = Some ([], LString (c # acc))"
      and "lex_step (LString (c # acc)) d = Some ([], LString (d # c # acc))"
      using surrogate_plain [of c] surrogate_plain [of d] by (simp_all add: plain_unit_lex)
    with True 3(1) [of "d # c # acc"] show ?thesis by simp
  next
    case False
    then have "quote_units (c # d # cs) = quote_unit c @ quote_units (d # cs)"
      by auto
    moreover from False have "lex_run (LString (c # acc)) (quote_units (d # cs)) =
        Some ([], LString (rev (d # cs) @ c # acc))"
      by (rule 3(2))
    ultimately show ?thesis
      by (simp add: lex_run_append quote_unit_lex del: lex_run.simps quote_units.simps)
  qed
qed

lemma QuoteJSONString_lex: "lex_run LStart (QuoteJSONString s) = Some ([TSTRING s], LStart)"
proof -
  have "lex_run (LString []) (quote_units s @ [0x22]) = Some ([TSTRING s], LStart)"
    by (simp add: lex_run_append quote_units_lex lex_step_def)
  then show ?thesis
    by (simp add: QuoteJSONString_def lex_step_def lex_start_def is_whitespace_def ch_def)
qed


lemma lex_all_run:
  "lex_run LStart xs = Some (ts, LStart) \<Longrightarrow> lex_all LStart xs = Some ts"
  using lex_append [of LStart xs "[]"] by (simp add: lex_end_def)

lemma errorEvent_text:
  "JSON_stringify (errorEvent m d) =
   ch CHR ''{'' # QuoteJSONString (js ''type'') @ ch CHR '':'' # QuoteJSONString (js ''error'') @
   ch CHR '','' # QuoteJSONString (js ''error'') @ ch CHR '':'' # ch CHR ''{'' #
   QuoteJSONString (js ''message'') @ ch CHR '':'' # QuoteJSONString m @
   ch CHR '','' # QuoteJSONString (js ''details'') @ ch CHR '':'' # QuoteJSONString d @
   [ch CHR ''}'', ch CHR ''}'']"
  by (simp add: errorEvent_def join_def)

lemma errorEvent_tokens:
  "lex_all LStart (JSON_stringify (errorEvent m d)) =
   Some [LBRACE, TSTRING (js ''type''), COLON, TSTRING (js ''error''), COMMA,
         TSTRING (js ''error''), COLON, LBRACE, TSTRING (js ''message''), COLON, TSTRING m, COMMA,
         TSTRING (js ''details''), COLON, TSTRING d, RBRACE, RBRACE]"
proof (rule lex_all_run)
  show "lex_run LStart (JSON_stringify (errorEvent m d)) =
        Some ([LBRACE, TSTRING (js ''type''), COLON, TSTRING (js ''error''), COMMA,
               TSTRING (js ''error''), COLON, LBRACE, TSTRING (js ''message''), COLON, TSTRING m,
               COMMA, TSTRING (js ''details''), COLON, TSTRING d, RBRACE, RBRACE], LStart)"
    unfolding errorEvent_text
    by (simp add: lex_run_append QuoteJSONString_lex lex_step_def lex_start_def
          is_whitespace_def ch_def)
qed

lemma not_index:
  "array_index (js ''type'') = None" "array_index (js ''error'') = None"
  "array_index (js ''message'') = None" "array_index (js ''details'') = None"
  by (simp_all add: array_index_def js_def is_digit_def)

lemma errorEvent_keys:
  "js ''type'' \<noteq> js ''error''" "js ''message'' \<noteq> js ''details''"
  "js ''error'' \<noteq> js ''type''" "js ''details'' \<noteq> js ''message''"
  by (simp_all add: js_def)

lemma errorEvent_roundtrip: "JSON_parse (JSON_stringify (errorEvent m d)) = Inr (errorEvent m d)"
  unfolding JSON_parse_def errorEvent_tokens
  by (simp add: parse_step_def parse_value_token_def parse_key_token_def put_value_def
        close_object_def own_properties_def not_index errorEvent_keys errorEvent_def)

lemma errorEvent_is_error_event: "is_error_event (JSON_stringify (errorEvent m d))"
  unfolding is_error_event_def errorEvent_roundtrip
  by (simp add: errorEvent_def get_property_def errorEvent_keys)

subsection \<open>The UTF-8 decoder reads back the UTF-8 encoding\<close>

lemma utf8_unat_byte: "n < 256 \<Longrightarrow> unat (of_nat n :: byte) = n"
  by (simp add: unat_of_nat)

lemma utf8_mod_digit: "c < k \<Longrightarrow> (k * j + c) mod k = (c::nat)"
  by simp

lemma utf8_decode_step:
  "utf8_decode st (of_nat n # bs) =
   (case utf8_step st (unat (of_nat n :: byte)) of (out, st') \<Rightarrow> out @ utf8_decode st' bs)"
  by simp

lemma utf8_decode1:
  assumes "a < 128"
  shows "utf8_decode Utf8Start (of_nat a # bs) = a # utf8_decode Utf8Start bs"
proof -
  have u: "unat (of_nat a :: byte) = a" using assms by (simp add: utf8_unat_byte)
  show ?thesis unfolding utf8_decode_step u using assms by (simp add: utf8_step_def utf8_start_def)
qed

lemma continue_last:
  assumes "c < 64"
  shows "utf8_decode (Utf8Continue cp 1 128 191) (of_nat (128 + c) # bs) =
         (cp * 64 + c) # utf8_decode Utf8Start bs"
proof -
  have u: "unat (of_nat (128 + c) :: byte) = 128 + c" by (rule utf8_unat_byte) (use assms in simp)
  have m: "(128 + c) mod 64 = c" using assms utf8_mod_digit [of c 64 2] by simp
  show ?thesis unfolding utf8_decode_step u using assms m by (simp add: utf8_step_def)
qed

lemma continue2:
  assumes "c < 64" "lower \<le> 128 + c" "128 + c \<le> upper"
  shows "utf8_decode (Utf8Continue cp 2 lower upper) (of_nat (128 + c) # bs) =
         utf8_decode (Utf8Continue (cp * 64 + c) 1 128 191) bs"
proof -
  have u: "unat (of_nat (128 + c) :: byte) = 128 + c" by (rule utf8_unat_byte) (use assms in simp)
  have m: "(128 + c) mod 64 = c" using assms utf8_mod_digit [of c 64 2] by simp
  show ?thesis unfolding utf8_decode_step u using assms m by (simp add: utf8_step_def)
qed

lemma continue3:
  assumes "c < 64" "lower \<le> 128 + c" "128 + c \<le> upper"
  shows "utf8_decode (Utf8Continue cp 3 lower upper) (of_nat (128 + c) # bs) =
         utf8_decode (Utf8Continue (cp * 64 + c) 2 128 191) bs"
proof -
  have u: "unat (of_nat (128 + c) :: byte) = 128 + c" by (rule utf8_unat_byte) (use assms in simp)
  have m: "(128 + c) mod 64 = c" using assms utf8_mod_digit [of c 64 2] by simp
  show ?thesis unfolding utf8_decode_step u using assms m by (simp add: utf8_step_def)
qed

lemma utf8_start2:
  assumes "2 \<le> a" "a < 32"
  shows "utf8_decode Utf8Start (of_nat (192 + a) # bs) = utf8_decode (Utf8Continue a 1 128 191) bs"
proof -
  have u: "unat (of_nat (192 + a) :: byte) = 192 + a" by (rule utf8_unat_byte) (use assms in simp)
  have m: "(192 + a) mod 32 = a" using assms utf8_mod_digit [of a 32 6] by simp
  show ?thesis unfolding utf8_decode_step u using assms m by (simp add: utf8_step_def utf8_start_def)
qed

lemma utf8_start3:
  assumes "a < 16"
  shows "utf8_decode Utf8Start (of_nat (224 + a) # bs) =
         utf8_decode (Utf8Continue a 2 (if a = 0 then 160 else 128) (if a = 13 then 159 else 191)) bs"
proof -
  have u: "unat (of_nat (224 + a) :: byte) = 224 + a" by (rule utf8_unat_byte) (use assms in simp)
  have m: "(224 + a) mod 16 = a" using assms utf8_mod_digit [of a 16 14] by simp
  show ?thesis unfolding utf8_decode_step u using assms m by (simp add: utf8_step_def utf8_start_def)
qed

lemma utf8_start4:
  assumes "a < 5"
  shows "utf8_decode Utf8Start (of_nat (240 + a) # bs) =
         utf8_decode (Utf8Continue a 3 (if a = 0 then 144 else 128) (if a = 4 then 143 else 191)) bs"
proof -
  have u: "unat (of_nat (240 + a) :: byte) = 240 + a" by (rule utf8_unat_byte) (use assms in simp)
  have m: "(240 + a) mod 8 = a" using assms utf8_mod_digit [of a 8 30] by simp
  show ?thesis unfolding utf8_decode_step u using assms m by (simp add: utf8_step_def utf8_start_def)
qed

lemma utf8_split2: "(n::nat) = n div 64 * 64 + n mod 64"
  by simp

lemma utf8_split3: "(n::nat) = (n div 4096 * 64 + n div 64 mod 64) * 64 + n mod 64"
proof -
  have "n div 4096 = n div 64 div 64" by (simp add: div_mult2_eq [symmetric])
  then have "n div 4096 * 64 + n div 64 mod 64 = n div 64" by simp
  then show ?thesis by simp
qed

lemma utf8_split4:
  "(n::nat) = ((n div 262144 * 64 + n div 4096 mod 64) * 64 + n div 64 mod 64) * 64 + n mod 64"
proof -
  have "n div 262144 = n div 4096 div 64" by (simp add: div_mult2_eq [symmetric])
  then have "n div 262144 * 64 + n div 4096 mod 64 = n div 4096" by simp
  then show ?thesis using utf8_split3 [of n] by simp
qed

lemma utf8_roundtrip_one:
  assumes "is_scalar cp"
  shows "utf8_decode Utf8Start (utf8_encode cp @ bs) = cp # utf8_decode Utf8Start bs"
proof -
  consider "cp < 128" | "128 \<le> cp" "cp < 2048" | "2048 \<le> cp" "cp < 65536"
    | "65536 \<le> cp" "cp < 1114112"
    using assms unfolding is_scalar_def by linarith
  then show ?thesis
  proof cases
    case 1
    then have enc: "utf8_encode cp = [of_nat cp]" unfolding utf8_encode_def by simp
    show ?thesis by (simp only: enc append_Cons append_Nil utf8_decode1 [OF 1])
  next
    case 2
    define a where "a = cp div 64"
    define c where "c = cp mod 64"
    have cp: "cp = a * 64 + c" unfolding a_def c_def by simp
    have "128 div 64 \<le> cp div 64" using 2(1) by (rule div_le_mono)
    then have a: "2 \<le> a" "a < 32"
      using 2 unfolding a_def by (simp_all add: less_mult_imp_div_less)
    have c: "c < 64" unfolding c_def by simp
    have enc: "utf8_encode cp = [of_nat (192 + a), of_nat (128 + c)]"
      using 2 unfolding utf8_encode_def a_def c_def by simp
    show ?thesis
      by (simp only: enc append_Cons append_Nil utf8_start2 [OF a] continue_last [OF c] cp [symmetric])
  next
    case 3
    define a where "a = cp div 4096"
    define b where "b = cp div 64 mod 64"
    define c where "c = cp mod 64"
    have cp: "cp = (a * 64 + b) * 64 + c" unfolding a_def b_def c_def by (rule utf8_split3)
    have a: "a < 16" using 3 unfolding a_def by (simp add: less_mult_imp_div_less)
    have b: "b < 64" unfolding b_def by simp
    have c: "c < 64" unfolding c_def by simp
    have lo: "(if a = 0 then 160 else 128) \<le> 128 + b" using 3 cp c by simp
    have "cp < 55296 \<or> 57344 \<le> cp" using assms unfolding is_scalar_def by blast
    then have hi: "128 + b \<le> (if a = 13 then 159 else 191)" using cp c b by auto
    have enc: "utf8_encode cp = [of_nat (224 + a), of_nat (128 + b), of_nat (128 + c)]"
      using 3 unfolding utf8_encode_def a_def b_def c_def by simp
    show ?thesis
      by (simp only: enc append_Cons append_Nil utf8_start3 [OF a] continue2 [OF b lo hi]
            continue_last [OF c] cp [symmetric])
  next
    case 4
    define a where "a = cp div 262144"
    define b where "b = cp div 4096 mod 64"
    define c where "c = cp div 64 mod 64"
    define d where "d = cp mod 64"
    have cp: "cp = ((a * 64 + b) * 64 + c) * 64 + d"
      unfolding a_def b_def c_def d_def by (rule utf8_split4)
    have a: "a < 5" using 4 unfolding a_def by (simp add: less_mult_imp_div_less)
    have b: "b < 64" unfolding b_def by simp
    have c: "c < 64" unfolding c_def by simp
    have d: "d < 64" unfolding d_def by simp
    have lo: "(if a = 0 then 144 else 128) \<le> 128 + b" using 4 cp c d by simp
    have hi: "128 + b \<le> (if a = 4 then 143 else 191)" using 4 cp b by simp
    have lo2: "128 \<le> 128 + c" by simp
    have hi2: "128 + c \<le> 191" using c by simp
    have enc: "utf8_encode cp =
               [of_nat (240 + a), of_nat (128 + b), of_nat (128 + c), of_nat (128 + d)]"
      using 4 unfolding utf8_encode_def a_def b_def c_def d_def by simp
    show ?thesis
      by (simp only: enc append_Cons append_Nil utf8_start4 [OF a] continue3 [OF b lo hi]
            continue2 [OF c lo2 hi2] continue_last [OF d] cp [symmetric])
  qed
qed

lemma utf8_roundtrip:
  "list_all is_scalar cps \<Longrightarrow> utf8_decode Utf8Start (concat (map utf8_encode cps)) = cps"
  by (induction cps) (simp_all add: utf8_roundtrip_one del: utf8_decode.simps(2))

lemma Buffer_toString_utf8:
  "list_all is_scalar cps \<Longrightarrow> Buffer_toString (concat (map utf8_encode cps)) = utf16_string cps"
  by (simp add: Buffer_toString_def utf16_string_def utf8_roundtrip)

subsection \<open>The relay\<close>

lemma ascii_scalar: "list_all is_scalar (ascii s)"
proof -
  have "is_scalar (of_char c)" for c
  proof -
    have "(of_char c :: nat) < 256" by (rule nat_of_char_less_256)
    then show ?thesis unfolding is_scalar_def by linarith
  qed
  then show ?thesis unfolding ascii_def by (induction s) simp_all
qed

lemma utf16_ascii: "utf16_string (ascii s) = js s"
proof -
  have "utf16_encode (of_char c) = [of_char c]" for c
  proof -
    have "(of_char c :: nat) < 256" by (rule nat_of_char_less_256)
    then have "(of_char c :: nat) < 65536" by linarith
    then show ?thesis unfolding utf16_encode_def by (simp add: of_nat_of_char)
  qed
  then show ?thesis unfolding utf16_string_def ascii_def js_def by (induction s) simp_all
qed

lemma data_toString_text:
  "list_all is_scalar cps \<Longrightarrow> data_toString (deliver version (TextMessage cps)) = utf16_string cps"
  by (cases version) (simp_all add: data_toString_def deliver_def Buffer_toString_utf8)

lemma data_toString_ascii: "data_toString (deliver version (TextMessage (ascii s))) = js s"
  by (simp add: data_toString_text ascii_scalar utf16_ascii)

lemma JSON_parse_error: "JSON_parse t = Inl e \<Longrightarrow> e = SyntaxError"
  by (auto simp: JSON_parse_def split: option.splits)

lemma client_message_forward:
  assumes "JSON_parse (data_toString message) = Inr event"
    and "json_depth event \<le> stringify_depth eng" and "openai_state \<noteq> CONNECTING"
  shows "clientSocket_on_message eng openai_state message = [Send OpenaiWs (JSON_stringify event)]"
  using assms
  by (simp add: clientSocket_on_message_def JSON_stringify_within_def ws_send_def Let_def)

lemma client_message_invalid:
  assumes "JSON_parse (data_toString message) = Inl e"
  shows "clientSocket_on_message eng openai_state message =
         [Send ClientSocket
            (JSON_stringify
               (errorEvent (js ''Invalid JSON format sent to server.'')
                  (syntax_message eng (data_toString message))))]"
proof -
  have "e = SyntaxError" using assms by (rule JSON_parse_error)
  with assms show ?thesis
    by (simp add: clientSocket_on_message_def Let_def exception_message_def)
qed

lemma client_message_too_deep:
  assumes "JSON_parse (data_toString message) = Inr event"
    and "stringify_depth eng < json_depth event"
  shows "clientSocket_on_message eng openai_state message =
         [Send ClientSocket
            (JSON_stringify
               (errorEvent (js ''Invalid JSON format sent to server.'')
                  (js ''Maximum call stack size exceeded'')))]"
  using assms
  by (simp add: clientSocket_on_message_def JSON_stringify_within_def Let_def
        exception_message_def)

lemma client_message_connecting:
  assumes "JSON_parse (data_toString message) = Inr event"
    and "json_depth event \<le> stringify_depth eng"
  shows "clientSocket_on_message eng CONNECTING message =
         [Send ClientSocket
            (JSON_stringify
               (errorEvent (js ''Invalid JSON format sent to server.'')
                  (js ''WebSocket is not open: readyState 0 (CONNECTING)'')))]"
  using assms
  by (simp add: clientSocket_on_message_def JSON_stringify_within_def ws_send_def Let_def
        exception_message_def)

lemma client_message_calls:
  "(\<exists>payload. clientSocket_on_message eng openai_state message = [Send OpenaiWs payload]) \<or>
   (\<exists>details. clientSocket_on_message eng openai_state message =
      [Send ClientSocket
         (JSON_stringify (errorEvent (js ''Invalid JSON format sent to server.'') details))])"
  by (auto simp: clientSocket_on_message_def JSON_stringify_within_def ws_send_def Let_def
        split: sum.splits)

lemma parse_spaced_event:
  "JSON_parse (js ''{\"type\": \"response.create\"}'') =
   Inr (JObject [(js ''type'', JString (js ''response.create''))])"
  by code_simp

lemma stringify_event:
  "JSON_stringify (JObject [(js ''type'', JString (js ''response.create''))]) =
   js ''{\"type\":\"response.create\"}''"
  by code_simp

lemma depth_event: "json_depth (JObject [(js ''type'', JString (js ''response.create''))]) = 1"
  by simp

lemma parse_cut_short: "JSON_parse (js ''{\"type\": '') = Inl SyntaxError"
  by code_simp

lemma stringify_invalid_json:
  "JSON_stringify (errorEvent (js ''Invalid JSON format sent to server.'')
     (js ''Unexpected end of JSON input'')) =
   js ''{\"type\":\"error\",\"error\":{\"message\":\"Invalid JSON format sent to server.\",\"details\":\"Unexpected end of JSON input\"}}''"
  by code_simp

lemma stringify_not_open:
  "JSON_stringify (errorEvent (js ''Invalid JSON format sent to server.'')
     (js ''WebSocket is not open: readyState 0 (CONNECTING)'')) =
   js ''{\"type\":\"error\",\"error\":{\"message\":\"Invalid JSON format sent to server.\",\"details\":\"WebSocket is not open: readyState 0 (CONNECTING)\"}}''"
  by code_simp

lemma stringify_too_deep:
  "JSON_stringify (errorEvent (js ''Invalid JSON format sent to server.'')
     (js ''Maximum call stack size exceeded'')) =
   js ''{\"type\":\"error\",\"error\":{\"message\":\"Invalid JSON format sent to server.\",\"details\":\"Maximum call stack size exceeded\"}}''"
  by code_simp

lemma stringify_api_error:
  "JSON_stringify (errorEvent (js ''Failed to connect to OpenAI Realtime API.'') (js ''socket hang up'')) =
   js ''{\"type\":\"error\",\"error\":{\"message\":\"Failed to connect to OpenAI Realtime API.\",\"details\":\"socket hang up\"}}''"
  by code_simp

lemma spaced_differs:
  "js ''{\"type\":\"response.create\"}'' \<noteq> js ''{\"type\": \"response.create\"}''"
  by (simp add: js_def)

lemma parse_empty_object: "JSON_parse (js ''{}'') = Inr (JObject [])"
  by code_simp

lemma stringify_empty_object: "JSON_stringify (JObject []) = js ''{}''"
  by code_simp

lemma parse_nested: "JSON_parse (js ''[[]]'') = Inr (JArray [JArray []])"
  by code_simp

text \<open>
  A message nested deeper than the engine's \<open>JSON.stringify\<close> can descend is valid JSON and
  is not forwarded: the \<open>RangeError\<close> is caught and reported to the client. Here the engine
  affords one level and the message is \<open>[[]]\<close>.
\<close>

lemma deep_message_not_forwarded:
  "handle (example_engine\<lparr>stringify_depth := 1\<rparr>) OPEN
     (ClientMessage (deliver Ws8 (TextMessage (ascii ''[[]]'')))) =
   [Send ClientSocket
      (js ''{\"type\":\"error\",\"error\":{\"message\":\"Invalid JSON format sent to server.\",\"details\":\"Maximum call stack size exceeded\"}}'')]"
  using client_message_too_deep [of "deliver Ws8 (TextMessage (ascii ''[[]]''))"
          "JArray [JArray []]" "example_engine\<lparr>stringify_depth := 1\<rparr>" OPEN]
  by (simp add: handle_def data_toString_ascii parse_nested stringify_too_deep
        del: JSON_stringify.simps)

lemma length_run: "length (run eng st evs) = length evs"
  by (induction evs arbitrary: st) (simp_all add: Let_def)

lemma run_handles:
  "i < length evs \<Longrightarrow> \<exists>s. run eng st evs ! i = handle eng s (evs ! i)"
proof (induction evs arbitrary: st i)
  case Nil
  then show ?case by simp
next
  case (Cons ev evs)
  show ?case
  proof (cases i)
    case 0
    then show ?thesis by (auto simp: Let_def)
  next
    case (Suc k)
    with Cons.prems have "k < length evs" by simp
    from Cons.IH [OF this] Suc show ?thesis by (simp add: Let_def)
  qed
qed

lemma client_end_closes_api:
  "is_client_end ev \<Longrightarrow> Close OpenaiWs \<in> set (handle eng s ev)"
  by (cases ev)
    (simp_all add: is_client_end_def handle_def clientSocket_on_close_def
       clientSocket_on_error_def)

lemma api_close_closes_client: "Close ClientSocket \<in> set (handle eng s OpenaiClose)"
  by (simp add: handle_def openaiWs_on_close_def)

lemma api_end_then_close:
  "error_then_close evs \<Longrightarrow> i < length evs \<Longrightarrow> is_api_end (evs ! i) \<Longrightarrow>
   \<exists>j. i \<le> j \<and> j < length evs \<and> evs ! j = OpenaiClose"
proof (induction evs arbitrary: i)
  case Nil
  then show ?case by simp
next
  case (Cons ev evs)
  show ?case
  proof (cases i)
    case 0
    with Cons.prems(3) have ends: "is_api_end ev" by simp
    show ?thesis
    proof (cases "ev = OpenaiClose")
      case True
      with 0 show ?thesis by auto
    next
      case False
      with ends obtain m where "ev = OpenaiError m"
        by (cases ev) (simp_all add: is_api_end_def)
      with Cons.prems(1) have "OpenaiClose \<in> set evs" by simp
      then obtain k where "k < length evs" "evs ! k = OpenaiClose"
        by (auto simp: in_set_conv_nth)
      with 0 have "i \<le> Suc k \<and> Suc k < length (ev # evs) \<and> (ev # evs) ! Suc k = OpenaiClose"
        by simp
      then show ?thesis by blast
    qed
  next
    case (Suc k)
    with Cons.prems have "error_then_close evs" "k < length evs" "is_api_end (evs ! k)"
      by simp_all
    from Cons.IH [OF this] obtain j where "k \<le> j" "j < length evs" "evs ! j = OpenaiClose"
      by blast
    with Suc have "i \<le> Suc j \<and> Suc j < length (ev # evs) \<and> (ev # evs) ! Suc j = OpenaiClose"
      by simp
    then show ?thesis by blast
  qed
qed

text \<open>
  C1, as stated, fails: the message \<open>{"type": "response.create"}\<close>, with a space after the
  colon, is valid JSON, and what the backend writes to the API socket is
  \<open>{"type":"response.create"}\<close>, without the space.
\<close>

theorem forward_not_verbatim:
  "handle example_engine OPEN
     (ClientMessage (deliver Ws8 (TextMessage (ascii ''{\"type\": \"response.create\"}'')))) =
     [Send OpenaiWs (js ''{\"type\":\"response.create\"}'')] \<and>
   js ''{\"type\":\"response.create\"}'' \<noteq> utf16_string (ascii ''{\"type\": \"response.create\"}'')"
  using client_message_forward
          [of "deliver Ws8 (TextMessage (ascii ''{\"type\": \"response.create\"}''))"
              "JObject [(js ''type'', JString (js ''response.create''))]" example_engine OPEN]
  by (simp add: handle_def data_toString_ascii utf16_ascii parse_spaced_event stringify_event
        spaced_differs example_engine_def del: JSON_stringify.simps)

text \<open>
  C1, amended: for every message that \<open>JSON.parse\<close> accepts and whose nesting
  \<open>JSON.stringify\<close> can descend, received while the API socket is not connecting, the
  backend makes exactly one call, \<open>openaiWs.send\<close>, and its payload is \<open>JSON.stringify\<close> of
  the parsed event: the event serialised again, not the text received.
\<close>

theorem client_message_forwarded:
  "JSON_parse (data_toString message) = Inr event \<Longrightarrow>
   json_depth event \<le> stringify_depth eng \<Longrightarrow> openai_state \<noteq> CONNECTING \<Longrightarrow>
   handle eng openai_state (ClientMessage message) = [Send OpenaiWs (JSON_stringify event)]"
  by (simp add: handle_def client_message_forward)

theorem client_message_forwarded_witness:
  "JSON_parse (data_toString (deliver Ws8 (TextMessage (ascii ''{\"type\": \"response.create\"}'')))) =
     Inr (JObject [(js ''type'', JString (js ''response.create''))]) \<and>
   json_depth (JObject [(js ''type'', JString (js ''response.create''))])
     \<le> stringify_depth example_engine \<and>
   OPEN \<noteq> CONNECTING \<and>
   handle example_engine OPEN
     (ClientMessage (deliver Ws8 (TextMessage (ascii ''{\"type\": \"response.create\"}'')))) =
     [Send OpenaiWs (js ''{\"type\":\"response.create\"}'')]"
  using client_message_forwarded
          [of "deliver Ws8 (TextMessage (ascii ''{\"type\": \"response.create\"}''))"
              "JObject [(js ''type'', JString (js ''response.create''))]" example_engine OPEN]
  by (simp add: data_toString_ascii parse_spaced_event stringify_event example_engine_def
        del: JSON_stringify.simps)

text \<open>
  C2: in every run of a session in which, as \<open>ws\<close> guarantees, each error event of a socket
  is followed by the close event of that socket, the backend calls \<open>close\<close> on the API socket
  in the step of every close event and every error event of the client socket, and for
  every close event and every error event of the API socket it calls \<open>close\<close> on the client
  socket in that step or a later one of the run.
\<close>

theorem close_propagation:
  "error_then_close evs \<Longrightarrow> i < length evs \<Longrightarrow>
   (is_client_end (evs ! i) \<longrightarrow> Close OpenaiWs \<in> set (run eng st evs ! i)) \<and>
   (is_api_end (evs ! i) \<longrightarrow>
      (\<exists>j. i \<le> j \<and> j < length evs \<and> Close ClientSocket \<in> set (run eng st evs ! j)))"
proof (intro conjI impI)
  assume i: "i < length evs" and "is_client_end (evs ! i)"
  from run_handles [OF i] obtain s where "run eng st evs ! i = handle eng s (evs ! i)" by blast
  with \<open>is_client_end (evs ! i)\<close> show "Close OpenaiWs \<in> set (run eng st evs ! i)"
    by (simp add: client_end_closes_api)
next
  assume "error_then_close evs" "i < length evs" "is_api_end (evs ! i)"
  from api_end_then_close [OF this] obtain j
    where j: "i \<le> j" "j < length evs" "evs ! j = OpenaiClose" by blast
  from run_handles [OF j(2)] obtain s where "run eng st evs ! j = handle eng s (evs ! j)"
    by blast
  with j have "i \<le> j \<and> j < length evs \<and> Close ClientSocket \<in> set (run eng st evs ! j)"
    by (simp add: api_close_closes_client)
  then show "\<exists>j. i \<le> j \<and> j < length evs \<and> Close ClientSocket \<in> set (run eng st evs ! j)"
    by blast
qed

theorem close_propagation_witness:
  "error_then_close [OpenaiOpen, OpenaiError (js ''socket hang up''), OpenaiClose] \<and>
   is_api_end ([OpenaiOpen, OpenaiError (js ''socket hang up''), OpenaiClose] ! 1) \<and>
   (\<exists>j. 1 \<le> j \<and> j < 3 \<and>
        Close ClientSocket \<in>
          set (run example_engine CONNECTING
                 [OpenaiOpen, OpenaiError (js ''socket hang up''), OpenaiClose] ! j)) \<and>
   error_then_close [OpenaiOpen, ClientError (js ''read ECONNRESET''), ClientClose] \<and>
   is_client_end ([OpenaiOpen, ClientError (js ''read ECONNRESET''), ClientClose] ! 1) \<and>
   Close OpenaiWs \<in>
     set (run example_engine CONNECTING
            [OpenaiOpen, ClientError (js ''read ECONNRESET''), ClientClose] ! 1)"
  using close_propagation
          [of "[OpenaiOpen, OpenaiError (js ''socket hang up''), OpenaiClose]" 1
              example_engine CONNECTING]
        close_propagation
          [of "[OpenaiOpen, ClientError (js ''read ECONNRESET''), ClientClose]" 1
              example_engine CONNECTING]
  by (simp add: is_api_end_def is_client_end_def numeral_3_eq_3 del: run.simps)

lemma backend_send_is_error_event:
  assumes "\<not> is_api_message ev" and "Send ClientSocket payload \<in> set (handle eng st ev)"
  shows "is_error_event payload \<and> handle eng st ev = [Send ClientSocket payload]"
proof (cases ev)
  case (ClientMessage message)
  from client_message_calls [of eng st message] assms(2) ClientMessage
  obtain details where
    "clientSocket_on_message eng st message =
       [Send ClientSocket
          (JSON_stringify (errorEvent (js ''Invalid JSON format sent to server.'') details))]"
    by (auto simp: handle_def)
  with assms(2) ClientMessage show ?thesis
    by (auto simp: handle_def errorEvent_is_error_event simp del: JSON_stringify.simps)
next
  case (OpenaiError m)
  with assms(2) show ?thesis
    by (auto simp: handle_def openaiWs_on_error_def errorEvent_is_error_event
          simp del: JSON_stringify.simps)
qed (use assms in \<open>simp_all add: handle_def is_api_message_def openaiWs_on_close_def
       clientSocket_on_close_def clientSocket_on_error_def\<close>)

text \<open>
  C3: whatever the backend sends to the client on its own account, that is in a step that
  does not relay a message of the API, is a text that \<open>JSON.parse\<close> reads as an object whose
  \<open>type\<close> is \<open>"error"\<close> and whose \<open>error\<close> is an object with a string \<open>message\<close>, and that
  one \<open>send\<close> is all the backend does in the step: it makes no call on the API socket. A
  client message that is not valid JSON is answered with such an event, which reads back
  as the object with the message \<open>Invalid JSON format sent to server.\<close> and the parser's
  complaint as details, and leaves the ready state of the API socket as it was; an error
  of the API socket is answered with the event that reads back as the object with the
  message \<open>Failed to connect to OpenAI Realtime API.\<close> and the error's message as details.
\<close>

theorem error_events:
  "(\<not> is_api_message ev \<and> Send ClientSocket payload \<in> set (handle eng st ev) \<longrightarrow>
      is_error_event payload \<and> handle eng st ev = [Send ClientSocket payload] \<and>
      calls_on OpenaiWs (handle eng st ev) = []) \<and>
   (JSON_parse (data_toString message) = Inl e \<longrightarrow>
      (\<exists>p. handle eng st (ClientMessage message) = [Send ClientSocket p] \<and>
           is_error_event p \<and>
           JSON_parse p =
             Inr (errorEvent (js ''Invalid JSON format sent to server.'')
                    (syntax_message eng (data_toString message)))) \<and>
      next_state st (ClientMessage message) (handle eng st (ClientMessage message)) = st) \<and>
   (\<exists>p. handle eng st (OpenaiError m) = [Send ClientSocket p] \<and>
        is_error_event p \<and>
        JSON_parse p = Inr (errorEvent (js ''Failed to connect to OpenAI Realtime API.'') m))"
proof (intro conjI impI)
  assume a: "\<not> is_api_message ev \<and> Send ClientSocket payload \<in> set (handle eng st ev)"
  then have b: "is_error_event payload \<and> handle eng st ev = [Send ClientSocket payload]"
    using backend_send_is_error_event [of ev payload eng st] by blast
  then show "is_error_event payload" "handle eng st ev = [Send ClientSocket payload]"
    by simp_all
  from b show "calls_on OpenaiWs (handle eng st ev) = []" by (simp add: calls_on_def)
next
  assume a: "JSON_parse (data_toString message) = Inl e"
  have h: "handle eng st (ClientMessage message) =
           [Send ClientSocket
              (JSON_stringify
                 (errorEvent (js ''Invalid JSON format sent to server.'')
                    (syntax_message eng (data_toString message))))]"
    using client_message_invalid [OF a] by (simp add: handle_def)
  then show "\<exists>p. handle eng st (ClientMessage message) = [Send ClientSocket p] \<and>
                 is_error_event p \<and>
                 JSON_parse p =
                   Inr (errorEvent (js ''Invalid JSON format sent to server.'')
                          (syntax_message eng (data_toString message)))"
    by (simp add: errorEvent_is_error_event errorEvent_roundtrip del: JSON_stringify.simps)
  from h show "next_state st (ClientMessage message) (handle eng st (ClientMessage message)) = st"
    by (simp add: next_state_def del: JSON_stringify.simps)
next
  show "\<exists>p. handle eng st (OpenaiError m) = [Send ClientSocket p] \<and>
            is_error_event p \<and>
            JSON_parse p = Inr (errorEvent (js ''Failed to connect to OpenAI Realtime API.'') m)"
    by (simp add: handle_def openaiWs_on_error_def errorEvent_is_error_event
          errorEvent_roundtrip del: JSON_stringify.simps)
qed

theorem error_events_witness:
  "\<not> is_api_message (ClientMessage (deliver Ws8 (TextMessage (ascii ''{\"type\": '')))) \<and>
   JSON_parse (data_toString (deliver Ws8 (TextMessage (ascii ''{\"type\": '')))) = Inl SyntaxError \<and>
   handle example_engine OPEN (ClientMessage (deliver Ws8 (TextMessage (ascii ''{\"type\": '')))) =
     [Send ClientSocket
        (js ''{\"type\":\"error\",\"error\":{\"message\":\"Invalid JSON format sent to server.\",\"details\":\"Unexpected end of JSON input\"}}'')] \<and>
   is_error_event
     (js ''{\"type\":\"error\",\"error\":{\"message\":\"Invalid JSON format sent to server.\",\"details\":\"Unexpected end of JSON input\"}}'') \<and>
   calls_on OpenaiWs
     (handle example_engine OPEN (ClientMessage (deliver Ws8 (TextMessage (ascii ''{\"type\": ''))))) = []"
proof -
  let ?ev = "ClientMessage (deliver Ws8 (TextMessage (ascii ''{\"type\": '')))"
  let ?p = "js ''{\"type\":\"error\",\"error\":{\"message\":\"Invalid JSON format sent to server.\",\"details\":\"Unexpected end of JSON input\"}}''"
  have p: "JSON_parse (data_toString (deliver Ws8 (TextMessage (ascii ''{\"type\": '')))) = Inl SyntaxError"
    by (simp add: data_toString_ascii parse_cut_short)
  have h: "handle example_engine OPEN ?ev = [Send ClientSocket ?p]"
    using client_message_invalid [OF p, of example_engine OPEN]
    by (simp add: handle_def data_toString_ascii example_engine_def stringify_invalid_json
          del: JSON_stringify.simps)
  have n: "\<not> is_api_message ?ev" by (simp add: is_api_message_def)
  from error_events [of ?ev ?p example_engine OPEN "deliver Ws8 (TextMessage (ascii ''{\"type\": ''))"
         SyntaxError "[]"] n h p
  show ?thesis by simp
qed

text \<open>
  C4 fails on the code: the single message \<open>{}\<close>, which is valid JSON, is answered with the
  error event \<open>Invalid JSON format sent to server.\<close> and not forwarded in a run in which it
  arrives while the API socket is still connecting, and is forwarded to the API in a run
  in which it arrives after the API socket has opened.
\<close>

theorem same_message_two_outputs:
  "run example_engine CONNECTING [ClientMessage (deliver Ws8 (TextMessage (ascii ''{}'')))] =
     [[Send ClientSocket
         (js ''{\"type\":\"error\",\"error\":{\"message\":\"Invalid JSON format sent to server.\",\"details\":\"WebSocket is not open: readyState 0 (CONNECTING)\"}}'')]] \<and>
   run example_engine CONNECTING
     [OpenaiOpen, ClientMessage (deliver Ws8 (TextMessage (ascii ''{}'')))] =
     [[], [Send OpenaiWs (js ''{}'')]]"
  using client_message_connecting [of "deliver Ws8 (TextMessage (ascii ''{}''))" "JObject []" example_engine]
    client_message_forward [of "deliver Ws8 (TextMessage (ascii ''{}''))" "JObject []" example_engine OPEN]
  by (simp add: handle_def next_state_def data_toString_ascii parse_empty_object
        stringify_empty_object stringify_not_open example_engine_def del: JSON_stringify.simps)

text \<open>
  C5: every message of the API is sent to the client, in one \<open>send\<close> that is all the backend
  does in the step. A text message, whichever way \<open>ws\<close> delivers it, is sent as the text it
  is; a binary message is sent as the UTF-8 decoding of its bytes.
\<close>

theorem api_message_forwarded:
  "(list_all is_scalar cps \<longrightarrow>
      handle eng st (OpenaiMessage (deliver version (TextMessage cps))) =
        [Send ClientSocket (utf16_string cps)]) \<and>
   handle eng st (OpenaiMessage (deliver version (BinaryMessage bytes))) =
     [Send ClientSocket (utf16_string (utf8_decode Utf8Start bytes))]"
proof (intro conjI impI)
  assume "list_all is_scalar cps"
  then show "handle eng st (OpenaiMessage (deliver version (TextMessage cps))) =
             [Send ClientSocket (utf16_string cps)]"
    by (cases version)
      (simp_all add: handle_def openaiWs_on_message_def deliver_def Buffer_toString_utf8)
next
  show "handle eng st (OpenaiMessage (deliver version (BinaryMessage bytes))) =
        [Send ClientSocket (utf16_string (utf8_decode Utf8Start bytes))]"
    by (simp add: handle_def openaiWs_on_message_def deliver_def Buffer_toString_def
          utf16_string_def)
qed

theorem api_message_forwarded_witness:
  "list_all is_scalar [104, 233, 8364, 128512] \<and>
   handle example_engine OPEN (OpenaiMessage (deliver Ws8 (TextMessage [104, 233, 8364, 128512]))) =
     [Send ClientSocket [0x68, 0xE9, 0x20AC, 0xD83D, 0xDE00]] \<and>
   handle example_engine OPEN (OpenaiMessage (deliver Ws7 (TextMessage [104, 233, 8364, 128512]))) =
     [Send ClientSocket [0x68, 0xE9, 0x20AC, 0xD83D, 0xDE00]]"
  using api_message_forwarded [of "[104, 233, 8364, 128512]" example_engine OPEN Ws8 "[]"]
    api_message_forwarded [of "[104, 233, 8364, 128512]" example_engine OPEN Ws7 "[]"]
  by (simp add: is_scalar_def utf16_string_def utf16_encode_def)

subsection \<open>The message list\<close>




























lemma js_get_twice:
  "js_get v k = Inr x \<Longrightarrow> \<exists>y. js_get v k' = Inr y"
  by (auto simp: js_get_def split: jsvalue.splits json.splits)

lemma content_forEach_mounted: "content_forEach eng content s \<noteq> Crashed e"
proof (induction content arbitrary: s)
  case Nil
  then show ?case by simp
next
  case (Cons contentItem rest)
  show ?case
  proof (cases "js_get (Value contentItem) (js ''type'')")
    case (Inl e')
    then show ?thesis by simp
  next
    case (Inr t)
    from js_get_twice [OF Inr] obtain x where x: "js_get (Value contentItem) (js ''text'') = Inr x"
      by blast
    from js_get_twice [OF Inr] obtain y where y: "js_get (Value contentItem) (js ''audio'') = Inr y"
      by blast
    show ?thesis
      using Inr x y Cons.IH by (cases "ToString eng y") (simp_all add: Let_def)
  qed
qed

lemma handleConversationItemCreated_mounted:
  "handleConversationItemCreated eng item s \<noteq> Crashed e"
  unfolding handleConversationItemCreated_def
  by (auto simp: content_forEach_mounted split: sum.splits jsvalue.splits json.splits)

text \<open>
  The one event that can unmount the component is a message of the backend that parses to
  an event of type \<open>error\<close>: every other event gives a next state.
\<close>

lemma ui_step_unmounts:
  assumes "ui_step eng s ev = Inl e"
  shows "\<exists>t d. ev = WsMessage t \<and> JSON_parse t = Inr d \<and>
               js_get (Value d) (js ''type'') = Inr (Value (JString (js ''error'')))"
proof (cases ev)
  case (WsMessage t)
  with assms have p: "processServerMessage eng t s = Inl e" by (simp add: ui_step_def)
  then obtain d where d: "JSON_parse t = Inr d"
    by (cases "JSON_parse t") (simp_all add: processServerMessage_def)
  with p have c: "handleServerEvent eng d s = Crashed e"
    by (simp add: processServerMessage_def split: outcome.splits)
  have "js_get (Value d) (js ''type'') = Inr (Value (JString (js ''error'')))"
  proof (rule ccontr)
    assume "js_get (Value d) (js ''type'') \<noteq> Inr (Value (JString (js ''error'')))"
    with c show False
      unfolding handleServerEvent_def
      by (auto simp: handleConversationItemCreated_mounted handleResponseAudioDelta_def
            handleResponseAudioDone_def handleResponseAudioTranscriptDone_def Let_def
            split: sum.splits jsvalue.splits if_splits)
  qed
  with WsMessage d show ?thesis by blast
qed (use assms in \<open>simp_all add: ui_step_def\<close>)

subsection \<open>Audio deltas\<close>



lemma delta_type_distinct:
  "js ''response.audio.delta'' \<noteq> js ''conversation.item.created''"
  "js ''response.audio.done'' \<noteq> js ''conversation.item.created''"
  "js ''response.audio.done'' \<noteq> js ''response.audio.delta''"
  by (simp_all add: js_def)










lemma parse_delta_QUFB:
  "JSON_parse (js ''{\"type\":\"response.audio.delta\",\"audio_delta\":\"QUFB\"}'') =
   Inr (JObject [(js ''type'', JString (js ''response.audio.delta'')),
                 (js ''audio_delta'', JString (js ''QUFB''))])"
  by code_simp





lemma audio_keys: "js ''audio_delta'' \<noteq> js ''type''" "js ''type'' \<noteq> js ''audio_delta''"
  by (simp_all add: js_def)

lemma msg_strings:
  "js ''QUFB'' \<noteq> []" "js ''QUJD'' \<noteq> []" "js ''QUFB'' @ js ''QUJD'' = js ''QUFBQUJD''"
  by (simp_all add: js_def)





lemma parse_delta_object:
  "JSON_parse (js ''{\"type\":\"response.audio.delta\",\"audio_delta\":{\"toString\":null}}'') =
   Inr (JObject [(js ''type'', JString (js ''response.audio.delta'')),
                 (js ''audio_delta'', JObject [(js ''toString'', JNull)])])"
  by code_simp

text \<open>
  The strings have to be strings: a delta event whose \<open>audio_delta\<close> is an object that
  cannot be converted to a string stays in the delta buffer, \<open>join\<close> throws at every delta
  event after it, and the audio of these events does not reach the message list.
\<close>

lemma malformed_delta_blocks_audio:
  "ui_run example_engine initial_state
     [WsMessage (js ''{\"type\":\"response.audio.delta\",\"audio_delta\":{\"toString\":null}}''),
      WsMessage (js ''{\"type\":\"response.audio.delta\",\"audio_delta\":\"QUFB\"}'')] =
   Inr \<lparr>messages = [],
        audioBufferRef = [JObject [(js ''toString'', JNull)], JString (js ''QUFB'')],
        isRecording = False\<rparr>"
  by (simp add: ui_step_def processServerMessage_def parse_delta_object parse_delta_QUFB
        handleServerEvent_def handleResponseAudioDelta_def js_get_def truthy_def
        delta_type_distinct audio_keys msg_strings array_join_def js_ToString_within_def
        initial_state_def example_engine_def Let_def)

end
